theory Spec2Isabelle
  imports Main "HOL-Library.Word"
begin

unbundle bit_operations_syntax

section \<open>Data model of gpu_uniformbuffer.c\<close>

text \<open>
  The C file manages OpenGL uniform buffer objects. The embedding keeps the structs as
  records, the two buffer kinds as the constructors of a datatype (the C code
  distinguishes them by the \<open>type\<close> tag of the base struct and casts), failing
  assertions and invalid memory accesses as values of \<open>error\<close>, and every OpenGL call
  and every line written to stderr as an entry of a trace carried in \<open>world\<close>.
  A \<open>BLI_assert\<close> whose condition is false ends the call with \<open>AssertFailed\<close>, as
  in a build that has assertions enabled.
  The \<open>printf\<close> calls of \<open>GPU_uniformbuffer_dynamic_eval\<close> only write to stdout and
  are left out. C \<open>int\<close> values are unbounded integers here: sizes are sums of at most
  16 bytes per input, so the embedding is exact for lists of fewer than \<open>2^27\<close> inputs.
\<close>

type_synonym byte = "8 word"
type_synonym GLuint = "32 word"

text \<open>
  Modelled from the spec: the enum \<open>GPUType\<close> (gpu_codegen.h) is not among the sources.
  Its value is the component-width class of the glossary, the number of 4-byte float
  components (1 = scalar, 2 = vec2, 3 = vec3, 4 = vec4); the code computes with it.
\<close>

type_synonym GPUType = nat

abbreviation (input) GPU_FLOAT :: GPUType where "GPU_FLOAT \<equiv> 1"
abbreviation (input) GPU_VEC2 :: GPUType where "GPU_VEC2 \<equiv> 2"
abbreviation (input) GPU_VEC3 :: GPUType where "GPU_VEC3 \<equiv> 3"
abbreviation (input) GPU_VEC4 :: GPUType where "GPU_VEC4 \<equiv> 4"
abbreviation (input) MAX_UBO_GPU_TYPE :: GPUType where "MAX_UBO_GPU_TYPE \<equiv> GPU_VEC4"

abbreviation (input) sizeof_float :: int where "sizeof_float \<equiv> 4"

text \<open>\<open>GPUUniformBufferFlag\<close>: \<open>1 << 0\<close> and \<open>1 << 1\<close>, kept in a \<open>char\<close>.\<close>

definition GPU_UBO_FLAG_INITIALIZED :: byte where
  "GPU_UBO_FLAG_INITIALIZED = push_bit 0 1"

definition GPU_UBO_FLAG_DIRTY :: byte where
  "GPU_UBO_FLAG_DIRTY = push_bit 1 1"

text \<open>
  Modelled from the spec: the enum \<open>GPUDataSource\<close> and the struct \<open>GPUInput\<close>
  (gpu_codegen.h) are not among the sources. An input has a type tag, a source tag of
  which only \<open>GPU_SOURCE_VEC_UNIFORM\<close> (a plain value) counts here, an optional producing
  link and an optional live-value pointer.
\<close>

datatype GPUDataSource =
    GPU_SOURCE_VEC_UNIFORM
  | GPU_SOURCE_BUILTIN
  | GPU_SOURCE_TEX_PIXEL
  | GPU_SOURCE_TEX
  | GPU_SOURCE_ATTRIB

text \<open>
  A \<open>GPUInput\<close>, with the fields the file reads. \<open>self\<close> is the address of the struct:
  the C code identifies inputs by pointer (\<open>BLI_findindex\<close>). \<open>link\<close> is the pointer to
  the producing node link and \<open>dynamicvec\<close> the pointer to the live value, both
  \<open>None\<close> when NULL; the bytes listed under \<open>dynamicvec\<close> are the object it points to.
  A \<open>LinkData\<close> node of the sorted list wraps exactly one input, so the node is
  represented by the input it carries.
\<close>

record GPUInput =
  self :: nat
  type :: GPUType
  source :: GPUDataSource
  link :: "nat option"
  dynamicvec :: "byte list option"

type_synonym LinkData = GPUInput

record GPUUniformBuffer =
  ubo_size :: int
  bindcode :: GLuint
  bindpoint :: int

record GPUUniformBufferDynamicItem =
  gputype :: GPUType
  offset :: int
  item_size :: int

record GPUUniformBufferDynamic =
  buffer :: GPUUniformBuffer
  items :: "GPUUniformBufferDynamicItem list"
  data :: "byte list option"
  id_lookup :: "int list option"
  flag :: byte

datatype ubo = Static GPUUniformBuffer | Dynamic GPUUniformBufferDynamic

fun base :: "ubo \<Rightarrow> GPUUniformBuffer" where
  "base (Static b) = b"
| "base (Dynamic d) = buffer d"

fun set_bindpoint :: "ubo \<Rightarrow> int \<Rightarrow> ubo" where
  "set_bindpoint (Static b) n = Static (b\<lparr>bindpoint := n\<rparr>)"
| "set_bindpoint (Dynamic d) n = Dynamic (d\<lparr>buffer := (buffer d)\<lparr>bindpoint := n\<rparr>\<rparr>)"

datatype error = AssertFailed | NullDeref | OutOfBounds

datatype gl_call =
    GlGenBuffers
  | GlDeleteBuffers GLuint
  | GlBindBuffer GLuint
  | GlBufferData int "byte list option"
  | GlBufferSubData int int "byte list option"
  | GlBindBufferBase int GLuint

record world =
  gl :: "gl_call list"
  stderr :: "string list"

text \<open>
  What the platform answers: \<open>GPU_max_ubo_size()\<close>, \<open>GPU_max_ubo_binds()\<close> and the
  name \<open>glGenBuffers\<close> hands out (0 when it fails).
\<close>

record platform =
  GPU_max_ubo_size :: int
  GPU_max_ubo_binds :: int
  glGenBuffers :: GLuint

definition gl_emit :: "gl_call list \<Rightarrow> world \<Rightarrow> world" where
  "gl_emit cs w = w\<lparr>gl := gl w @ cs\<rparr>"

fun is_upload :: "gl_call \<Rightarrow> bool" where
  "is_upload (GlBufferData _ _) = True"
| "is_upload (GlBufferSubData _ _ _) = True"
| "is_upload _ = False"

fun is_full_alloc :: "gl_call \<Rightarrow> bool" where
  "is_full_alloc (GlBufferData _ _) = True"
| "is_full_alloc _ = False"

definition uploads :: "world \<Rightarrow> nat" where
  "uploads w = length (filter is_upload (gl w))"

definition full_allocs :: "world \<Rightarrow> nat" where
  "full_allocs w = length (filter is_full_alloc (gl w))"

section \<open>Buffer core\<close>

definition gpu_uniformbuffer_initialize ::
  "GPUUniformBuffer \<Rightarrow> byte list option \<Rightarrow> world \<Rightarrow> world" where
  "gpu_uniformbuffer_initialize b d w =
     gl_emit [GlBindBuffer (bindcode b), GlBufferData (ubo_size b) d, GlBindBuffer 0] w"

definition gpu_uniformbuffer_update ::
  "GPUUniformBuffer \<Rightarrow> byte list option \<Rightarrow> world \<Rightarrow> world" where
  "gpu_uniformbuffer_update b d w =
     gl_emit [GlBindBuffer (bindcode b), GlBufferSubData 0 (ubo_size b) d, GlBindBuffer 0] w"

text \<open>\<open>GPU_uniformbuffer_free\<close>: the record is gone afterwards, the trace keeps the GL call.\<close>

definition GPU_uniformbuffer_free :: "ubo \<Rightarrow> world \<Rightarrow> world" where
  "GPU_uniformbuffer_free u w = gl_emit [GlDeleteBuffers (bindcode (base u))] w"

definition GPU_uniformbuffer_update ::
  "ubo \<Rightarrow> byte list option \<Rightarrow> world \<Rightarrow> error + ubo \<times> world" where
  "GPU_uniformbuffer_update u d w =
     (case u of
        Dynamic _ \<Rightarrow> Inl AssertFailed
      | Static b \<Rightarrow> Inr (u, gpu_uniformbuffer_update b d w))"

definition GPU_uniformbuffer_dynamic_update :: "ubo \<Rightarrow> world \<Rightarrow> error + ubo \<times> world" where
  "GPU_uniformbuffer_dynamic_update u w =
     (case u of
        Static _ \<Rightarrow> Inl AssertFailed
      | Dynamic d \<Rightarrow>
          (if flag d AND GPU_UBO_FLAG_INITIALIZED \<noteq> 0
           then Inr (Dynamic (d\<lparr>flag := flag d AND NOT GPU_UBO_FLAG_DIRTY\<rparr>),
                     gpu_uniformbuffer_update (buffer d) (data d) w)
           else Inr (Dynamic (d\<lparr>flag := (flag d OR GPU_UBO_FLAG_INITIALIZED)
                                            AND NOT GPU_UBO_FLAG_DIRTY\<rparr>),
                     gpu_uniformbuffer_initialize (buffer d) (data d) w)))"

definition GPU_uniformbuffer_bind ::
  "platform \<Rightarrow> ubo \<Rightarrow> int \<Rightarrow> world \<Rightarrow> error + ubo \<times> world" where
  "GPU_uniformbuffer_bind pf u number w =
     (if number \<ge> GPU_max_ubo_binds pf
      then Inr (u, w\<lparr>stderr := stderr w @ [''Not enough UBO slots.'' @ [CHR 0x0A]]\<rparr>)
      else
        (case (case u of
                 Dynamic d \<Rightarrow>
                   (if flag d AND GPU_UBO_FLAG_DIRTY \<noteq> 0
                    then GPU_uniformbuffer_dynamic_update u w
                    else Inr (u, w))
               | Static _ \<Rightarrow> Inr (u, w)) of
           Inl e \<Rightarrow> Inl e
         | Inr (u1, w1) \<Rightarrow>
             Inr (set_bindpoint u1 number,
                  (if bindcode (base u1) \<noteq> 0
                   then gl_emit [GlBindBufferBase number (bindcode (base u1))] w1
                   else w1))))"

definition GPU_uniformbuffer_unbind :: "ubo \<Rightarrow> ubo" where
  "GPU_uniformbuffer_unbind u = set_bindpoint u (- 1)"

definition GPU_uniformbuffer_bindpoint :: "ubo \<Rightarrow> int" where
  "GPU_uniformbuffer_bindpoint u = bindpoint (base u)"

definition GPU_uniformbuffer_tag_dirty :: "ubo \<Rightarrow> error + ubo" where
  "GPU_uniformbuffer_tag_dirty u =
     (case u of
        Static _ \<Rightarrow> Inl AssertFailed
      | Dynamic d \<Rightarrow> Inr (Dynamic (d\<lparr>flag := flag d OR GPU_UBO_FLAG_DIRTY\<rparr>)))"

section \<open>Sync step\<close>

definition gpu_input_is_dynamic_uniform :: "GPUInput \<Rightarrow> bool" where
  "gpu_input_is_dynamic_uniform input \<longleftrightarrow>
     source input = GPU_SOURCE_VEC_UNIFORM \<and> link input = None"

text \<open>
  Modelled from the spec: \<open>BLI_findlink\<close> (listbase.c) is not among the sources. The
  sync step uses it to "resolve the target Item by its packed position": the node at
  position \<open>number\<close>, NULL when there is none.
\<close>

definition BLI_findlink :: "'a list \<Rightarrow> int \<Rightarrow> 'a option" where
  "BLI_findlink xs number =
     (if 0 \<le> number \<and> number < int (length xs) then Some (xs ! nat number) else None)"

text \<open>
  \<open>memcpy(dst + at, src, n)\<close> on a block of bytes: \<open>at\<close> is the byte position in
  the destination block. Writing outside the block or reading past the end of the
  source object is an invalid access.
\<close>

definition memcpy :: "byte list \<Rightarrow> int \<Rightarrow> byte list \<Rightarrow> int \<Rightarrow> error + byte list" where
  "memcpy dst at src n =
     (if at < 0 \<or> n < 0 \<or> at + n > int (length dst) \<or> n > int (length src)
      then Inl OutOfBounds
      else Inr (take (nat at) dst @ take (nat n) src @ drop (nat (at + n)) dst))"

text \<open>
  The loop of \<open>GPU_uniformbuffer_dynamic_eval\<close>; \<open>sorted_id\<close> is the part of
  \<open>id_lookup\<close> the cursor has not consumed yet. The destination is
  \<open>(float *)ubo->data + item->offset\<close>: the item offset counts floats.
\<close>

fun dynamic_eval_loop ::
  "GPUUniformBufferDynamic \<Rightarrow> int list option \<Rightarrow> GPUInput list
    \<Rightarrow> error + GPUUniformBufferDynamic" where
  "dynamic_eval_loop ubo sorted_id [] = Inr ubo"
| "dynamic_eval_loop ubo sorted_id (input # rest) =
     (if gpu_input_is_dynamic_uniform input then
        (case dynamicvec input of
           None \<Rightarrow> Inl AssertFailed
         | Some src \<Rightarrow>
            (case sorted_id of
               None \<Rightarrow> Inl NullDeref
             | Some [] \<Rightarrow> Inl OutOfBounds
             | Some (id' # sorted_id') \<Rightarrow>
                (case BLI_findlink (items ubo) id' of
                   None \<Rightarrow> Inl NullDeref
                 | Some item \<Rightarrow>
                    (case data ubo of
                       None \<Rightarrow> Inl NullDeref
                     | Some block \<Rightarrow>
                        (case memcpy block (sizeof_float * offset item) src (item_size item) of
                           Inl e \<Rightarrow> Inl e
                         | Inr block' \<Rightarrow>
                             dynamic_eval_loop (ubo\<lparr>data := Some block'\<rparr>)
                               (Some sorted_id') rest)))))
      else dynamic_eval_loop ubo sorted_id rest)"

definition GPU_uniformbuffer_dynamic_eval :: "ubo \<Rightarrow> GPUInput list \<Rightarrow> error + ubo" where
  "GPU_uniformbuffer_dynamic_eval u inputs =
     (case u of
        Static _ \<Rightarrow> Inl AssertFailed
      | Dynamic d \<Rightarrow>
         (case dynamic_eval_loop d (id_lookup d) inputs of
            Inl e \<Rightarrow> Inl e
          | Inr d' \<Rightarrow> Inr (Dynamic d')))"

section \<open>Sequences of operations on a buffer\<close>

datatype ubo_op =
    OpDynamicUpdate
  | OpDynamicEval "GPUInput list"
  | OpBind int
  | OpUnbind
  | OpTagDirty

fun step :: "platform \<Rightarrow> ubo_op \<Rightarrow> ubo \<times> world \<Rightarrow> error + ubo \<times> world" where
  "step pf OpDynamicUpdate (u, w) = GPU_uniformbuffer_dynamic_update u w"
| "step pf (OpDynamicEval inputs) (u, w) =
     (case GPU_uniformbuffer_dynamic_eval u inputs of Inl e \<Rightarrow> Inl e | Inr u' \<Rightarrow> Inr (u', w))"
| "step pf (OpBind number) (u, w) = GPU_uniformbuffer_bind pf u number w"
| "step pf OpUnbind (u, w) = Inr (GPU_uniformbuffer_unbind u, w)"
| "step pf OpTagDirty (u, w) =
     (case GPU_uniformbuffer_tag_dirty u of Inl e \<Rightarrow> Inl e | Inr u' \<Rightarrow> Inr (u', w))"

fun run :: "platform \<Rightarrow> ubo_op list \<Rightarrow> ubo \<times> world \<Rightarrow> error + ubo \<times> world" where
  "run pf [] s = Inr s"
| "run pf (op # ops) s = (case step pf op s of Inl e \<Rightarrow> Inl e | Inr s' \<Rightarrow> run pf ops s')"

section \<open>Alignment sorter\<close>

definition inputs_cmp :: "LinkData \<Rightarrow> LinkData \<Rightarrow> int" where
  "inputs_cmp a b = (if type a < type b then 1 else 0)"

text \<open>
  Modelled from the spec: \<open>BLI_listbase_sort\<close> (listbase.c) is not among the sources.
  The spec (4.1) describes the sort pass as a stable sort; the callback returns a
  positive value when its first argument has to come after its second. It is written
  as an insertion sort that moves an element only past elements it has to come after.
\<close>

fun sort_insert :: "('a \<Rightarrow> 'a \<Rightarrow> int) \<Rightarrow> 'a \<Rightarrow> 'a list \<Rightarrow> 'a list" where
  "sort_insert cmp x [] = [x]"
| "sort_insert cmp x (y # ys) =
     (if cmp x y > 0 then y # sort_insert cmp x ys else x # y # ys)"

definition BLI_listbase_sort :: "('a \<Rightarrow> 'a \<Rightarrow> int) \<Rightarrow> 'a list \<Rightarrow> 'a list" where
  "BLI_listbase_sort cmp xs = foldr (sort_insert cmp) xs []"

text \<open>
  The linked list is the list of its nodes in order; a node pointer is the node.
  \<open>next_link\<close> is \<open>link->next\<close>.
\<close>

definition next_link :: "'a list \<Rightarrow> 'a \<Rightarrow> 'a option" where
  "next_link xs l =
     (case dropWhile (\<lambda>x. x \<noteq> l) xs of
        [] \<Rightarrow> None
      | [_] \<Rightarrow> None
      | _ # n # _ \<Rightarrow> Some n)"

text \<open>
  Modelled from the spec: \<open>BLI_remlink\<close> and \<open>BLI_insertlinkafter\<close> (listbase.c)
  are not among the sources. The sorter uses them to "relocate" an entry "to immediately
  follow" another one: the first unlinks a node, the second puts a node behind a node of
  the list (and finds no place for it when that node is not in the list, which a list
  without repeated nodes never asks for here: the node moved is never the cursor).
\<close>

definition BLI_remlink :: "'a list \<Rightarrow> 'a \<Rightarrow> 'a list" where
  "BLI_remlink xs l = remove1 l xs"

fun BLI_insertlinkafter :: "'a list \<Rightarrow> 'a \<Rightarrow> 'a \<Rightarrow> 'a list" where
  "BLI_insertlinkafter [] prevlink newlink = []"
| "BLI_insertlinkafter (x # xs) prevlink newlink =
     (if x = prevlink then x # newlink # xs
      else x # BLI_insertlinkafter xs prevlink newlink)"

text \<open>
  First loop of \<open>gpu_uniformbuffer_inputs_sort\<close>: the table \<open>inputs_lookup\<close> has
  \<open>MAX_UBO_GPU_TYPE + 1\<close> entries, so a type above \<open>MAX_UBO_GPU_TYPE\<close> indexes
  outside of it.
\<close>

fun inputs_lookup_loop ::
  "LinkData list \<Rightarrow> (GPUType \<Rightarrow> LinkData option) \<Rightarrow> GPUType
    \<Rightarrow> error + (GPUType \<Rightarrow> LinkData option)" where
  "inputs_lookup_loop [] inputs_lookup cur_type = Inr inputs_lookup"
| "inputs_lookup_loop (lnk # rest) inputs_lookup cur_type =
     (if type lnk = cur_type then inputs_lookup_loop rest inputs_lookup cur_type
      else if type lnk > MAX_UBO_GPU_TYPE then Inl OutOfBounds
      else inputs_lookup_loop rest (inputs_lookup(type lnk := Some lnk)) (type lnk))"

text \<open>
  The \<open>while\<close> loop of \<open>gpu_uniformbuffer_inputs_sort\<close>. Of the table only the entry
  \<open>inputs_lookup[GPU_FLOAT]\<close> is read and written here; it is the third argument.
  The result is \<open>None\<close> when the loop does not return.
\<close>

partial_function (option) vec3_pair_loop ::
  "LinkData list \<Rightarrow> LinkData option \<Rightarrow> LinkData option \<Rightarrow> LinkData list option" where
  "vec3_pair_loop inputs lnk lookup_float =
     (case lnk of
        None \<Rightarrow> Some inputs
      | Some l \<Rightarrow>
         (if type l \<noteq> GPU_VEC3 then Some inputs
          else
            (case next_link inputs l of
               None \<Rightarrow> Some inputs
             | Some link_next \<Rightarrow>
                (if type link_next = GPU_FLOAT then Some inputs
                 else
                   (case lookup_float of
                      None \<Rightarrow> vec3_pair_loop inputs (Some link_next) None
                    | Some float_input \<Rightarrow>
                        vec3_pair_loop
                          (BLI_insertlinkafter (BLI_remlink inputs float_input) l float_input)
                          (Some link_next)
                          (next_link inputs float_input))))))"

declare vec3_pair_loop.simps [code]

definition gpu_uniformbuffer_inputs_sort ::
  "LinkData list \<Rightarrow> (error + LinkData list) option" where
  "gpu_uniformbuffer_inputs_sort inputs0 =
     (let inputs = BLI_listbase_sort inputs_cmp inputs0 in
      case inputs_lookup_loop inputs (\<lambda>_. None) (MAX_UBO_GPU_TYPE + 1) of
        Inl e \<Rightarrow> Some (Inl e)
      | Inr inputs_lookup \<Rightarrow>
         (case inputs_lookup GPU_VEC3 of
            None \<Rightarrow> Some (Inr inputs)
          | Some l \<Rightarrow>
              map_option Inr (vec3_pair_loop inputs (Some l) (inputs_lookup GPU_FLOAT))))"

section \<open>Dynamic buffer builder\<close>

text \<open>\<open>link_next\<close> is \<open>link->next\<close>, \<open>None\<close> at the end of the list.\<close>

definition get_padded_gpu_type :: "LinkData \<Rightarrow> LinkData option \<Rightarrow> GPUType" where
  "get_padded_gpu_type lnk link_next =
     (case link_next of
        None \<Rightarrow> type lnk
      | Some n \<Rightarrow> (if type lnk = GPU_VEC3 \<and> type n \<noteq> GPU_FLOAT then GPU_VEC4 else type lnk))"

definition gpu_uniformbuffer_populate ::
  "GPUUniformBufferDynamic \<Rightarrow> GPUType \<Rightarrow> int \<Rightarrow> error + GPUUniformBufferDynamic" where
  "gpu_uniformbuffer_populate ubo gt ofs =
     (if \<not> gt \<le> MAX_UBO_GPU_TYPE then Inl AssertFailed
      else
        (let item = \<lparr>gputype = gt, offset = ofs, item_size = int gt * sizeof_float\<rparr>
         in Inr (ubo\<lparr>buffer := (buffer ubo)\<lparr>ubo_size := ubo_size (buffer ubo) + item_size item\<rparr>,
                     flag := flag ubo OR GPU_UBO_FLAG_DIRTY,
                     items := items ubo @ [item]\<rparr>)))"

text \<open>
  Modelled from the spec: \<open>BLI_findindex\<close> (listbase.c) is not among the sources. The
  builder records "the index of this entry within the original unsorted input list
  (found by identity search)": the position of the node with the given address,
  \<open>-1\<close> when the list does not hold it.
\<close>

fun BLI_findindex :: "GPUInput list \<Rightarrow> GPUInput \<Rightarrow> int" where
  "BLI_findindex [] p = - 1"
| "BLI_findindex (x # xs) p =
     (if self x = self p then 0
      else (let r = BLI_findindex xs p in if r = - 1 then - 1 else r + 1))"

text \<open>
  The layout loop of the builder (source lines 179 to 191). \<open>ids\<close> are the entries
  of \<open>id_lookup\<close> written so far, \<open>ofs\<close> is the running \<open>offset\<close>, which advances by
  the number of components of each item. The array \<open>id_lookup\<close> has one entry for each
  node of the sorted list, and the loop writes one entry for each node, in order.
\<close>

fun layout_loop ::
  "GPUInput list \<Rightarrow> GPUUniformBufferDynamic \<Rightarrow> int list \<Rightarrow> int \<Rightarrow> LinkData list
    \<Rightarrow> error + GPUUniformBufferDynamic \<times> int list" where
  "layout_loop inputs ubo ids ofs [] = Inr (ubo, ids)"
| "layout_loop inputs ubo ids ofs (lnk # rest) =
     (if gpu_input_is_dynamic_uniform lnk then
        (let gt = get_padded_gpu_type lnk (case rest of [] \<Rightarrow> None | n # _ \<Rightarrow> Some n) in
         case gpu_uniformbuffer_populate ubo gt ofs of
           Inl e \<Rightarrow> Inl e
         | Inr ubo' \<Rightarrow>
            (let id' = BLI_findindex inputs lnk in
             if id' = - 1 then Inl AssertFailed
             else layout_loop inputs ubo' (ids @ [id']) (ofs + int gt) rest))
      else layout_loop inputs ubo ids ofs rest)"

text \<open>
  What a call of the builder leaves behind: the returned pointer (\<open>None\<close> for NULL),
  the caller's sorted list, the caller's error buffer (\<open>None\<close> when the caller passed
  NULL) and the trace.
\<close>

record build_result =
  ret :: "ubo option"
  r_inputs_sorted :: "LinkData list"
  err_out :: "string option"
  world_out :: world

text \<open>\<open>BLI_snprintf(err_out, 256, msg)\<close> under \<open>if (err_out)\<close>.\<close>

definition write_err :: "string option \<Rightarrow> string \<Rightarrow> string option" where
  "write_err err msg = (case err of None \<Rightarrow> None | Some _ \<Rightarrow> Some (take 255 msg))"

text \<open>
  \<open>GPU_uniformbuffer_create\<close>, the constructor of static buffers: the returned pointer,
  the caller's error buffer and the trace.
\<close>

definition GPU_uniformbuffer_create ::
  "platform \<Rightarrow> int \<Rightarrow> byte list option \<Rightarrow> string option \<Rightarrow> world
    \<Rightarrow> ubo option \<times> string option \<times> world" where
  "GPU_uniformbuffer_create pf sz d err w =
     (let ubo = \<lparr>ubo_size = sz, bindcode = glGenBuffers pf, bindpoint = - 1\<rparr>;
          w1 = gl_emit [GlGenBuffers] w
      in
      if bindcode ubo = 0
      then (None, write_err err ''GPUUniformBuffer: UBO create failed'',
            GPU_uniformbuffer_free (Static ubo) w1)
      else if ubo_size ubo > GPU_max_ubo_size pf
      then (None, write_err err ''GPUUniformBuffer: UBO too big'',
            GPU_uniformbuffer_free (Static ubo) w1)
      else (Some (Static ubo), err, gpu_uniformbuffer_initialize ubo d w1))"

text \<open>
  The block obtained from \<open>MEM_mallocN\<close> is not initialised by the C code; the
  embedding fills it with zero bytes.
\<close>

definition GPU_uniformbuffer_dynamic_sort_and_create ::
  "platform \<Rightarrow> GPUInput list \<Rightarrow> LinkData list \<Rightarrow> string option \<Rightarrow> world
    \<Rightarrow> (error + build_result) option" where
  "GPU_uniformbuffer_dynamic_sort_and_create pf inputs r_sorted err w =
     (if r_sorted \<noteq> [] then Some (Inl AssertFailed)
      else
        (let sorted0 = filter gpu_input_is_dynamic_uniform inputs;
             num_inputs = int (length sorted0)
         in
         if num_inputs = 0
         then Some (Inr \<lparr>ret = None, r_inputs_sorted = sorted0, err_out = err, world_out = w\<rparr>)
         else
           (let ubo0 = \<lparr>buffer = \<lparr>ubo_size = 0, bindcode = glGenBuffers pf, bindpoint = - 1\<rparr>,
                        items = [], data = None, id_lookup = None,
                        flag = GPU_UBO_FLAG_DIRTY\<rparr>;
                w1 = gl_emit [GlGenBuffers] w
            in
            if bindcode (buffer ubo0) = 0
            then Some (Inr \<lparr>ret = None, r_inputs_sorted = sorted0,
                            err_out = write_err err ''GPUUniformBuffer: UBO create failed'',
                            world_out = GPU_uniformbuffer_free (Dynamic ubo0) w1\<rparr>)
            else if ubo_size (buffer ubo0) > GPU_max_ubo_size pf
            then Some (Inr \<lparr>ret = None, r_inputs_sorted = sorted0,
                            err_out = write_err err ''GPUUniformBuffer: UBO too big'',
                            world_out = GPU_uniformbuffer_free (Dynamic ubo0) w1\<rparr>)
            else
              (case gpu_uniformbuffer_inputs_sort sorted0 of
                 None \<Rightarrow> None
               | Some (Inl e) \<Rightarrow> Some (Inl e)
               | Some (Inr sorted1) \<Rightarrow>
                  (case layout_loop inputs ubo0 [] 0 sorted1 of
                     Inl e \<Rightarrow> Some (Inl e)
                   | Inr (ubo1, ids) \<Rightarrow>
                      (let ubo2 = ubo1\<lparr>id_lookup := Some ids,
                                        data := Some (replicate (nat (ubo_size (buffer ubo1))) 0)\<rparr>
                       in
                       case GPU_uniformbuffer_dynamic_eval (Dynamic ubo2) inputs of
                         Inl e \<Rightarrow> Some (Inl e)
                       | Inr u3 \<Rightarrow>
                          (case GPU_uniformbuffer_dynamic_update u3 w1 of
                             Inl e \<Rightarrow> Some (Inl e)
                           | Inr (u4, w2) \<Rightarrow>
                               Some (Inr \<lparr>ret = Some u4, r_inputs_sorted = sorted1,
                                          err_out = err, world_out = w2\<rparr>))))))))"

section \<open>Reading a layout\<close>

text \<open>
  \<open>packed_from start its\<close>: the first item begins at byte \<open>start\<close> of the staging
  block and every further item begins at the byte where its predecessor ends. The byte
  position of an item is \<open>sizeof(float) * offset\<close>, as in the sync step.
\<close>

fun packed_from :: "int \<Rightarrow> GPUUniformBufferDynamicItem list \<Rightarrow> bool" where
  "packed_from start [] = True"
| "packed_from start (it # its) =
     (sizeof_float * offset it = start \<and> packed_from (start + item_size it) its)"

definition laid_out :: "GPUUniformBufferDynamic \<Rightarrow> bool" where
  "laid_out ubo \<longleftrightarrow>
     sum_list (map item_size (items ubo)) = ubo_size (buffer ubo)
     \<and> packed_from 0 (items ubo)
     \<and> list_all (\<lambda>it. gputype it \<le> MAX_UBO_GPU_TYPE
                       \<and> item_size it = int (gputype it) * sizeof_float) (items ubo)"

text \<open>The bytes of the staging block that belong to an item, and the first \<open>n\<close> bytes
  of the live value of an input.\<close>

definition staged_bytes ::
  "GPUUniformBufferDynamic \<Rightarrow> GPUUniformBufferDynamicItem \<Rightarrow> byte list" where
  "staged_bytes ubo it =
     (case data ubo of
        None \<Rightarrow> []
      | Some block \<Rightarrow> take (nat (item_size it)) (drop (nat (sizeof_float * offset it)) block))"

definition live_bytes :: "GPUInput \<Rightarrow> int \<Rightarrow> byte list" where
  "live_bytes input n = (case dynamicvec input of None \<Rightarrow> [] | Some src \<Rightarrow> take (nat n) src)"

text \<open>What a call of the builder left behind if it returned, and the dynamic buffer it
  returned, if it returned one.\<close>

definition returned :: "(error + build_result) option \<Rightarrow> build_result option" where
  "returned res = (case res of Some (Inr r) \<Rightarrow> Some r | _ \<Rightarrow> None)"

definition built :: "(error + build_result) option \<Rightarrow> GPUUniformBufferDynamic option" where
  "built res =
     (case returned res of
        Some r \<Rightarrow> (case ret r of Some (Dynamic d) \<Rightarrow> Some d | _ \<Rightarrow> None)
      | None \<Rightarrow> None)"

section \<open>Concrete inputs\<close>

definition uniform_input :: "nat \<Rightarrow> GPUType \<Rightarrow> byte list \<Rightarrow> GPUInput" where
  "uniform_input a t bs =
     \<lparr>self = a, type = t, source = GPU_SOURCE_VEC_UNIFORM, link = None, dynamicvec = Some bs\<rparr>"

definition ex_platform :: platform where
  "ex_platform = \<lparr>GPU_max_ubo_size = 65536, GPU_max_ubo_binds = 8, glGenBuffers = 7\<rparr>"

definition ex_small_platform :: platform where
  "ex_small_platform = \<lparr>GPU_max_ubo_size = 16, GPU_max_ubo_binds = 8, glGenBuffers = 7\<rparr>"

definition ex_world :: world where
  "ex_world = \<lparr>gl = [], stderr = []\<rparr>"

text \<open>A one-item buffer as the builder leaves it (initialised, clean), and the same
  buffer before its first upload.\<close>

definition ex_clean :: GPUUniformBufferDynamic where
  "ex_clean =
     \<lparr>buffer = \<lparr>ubo_size = 16, bindcode = 7, bindpoint = - 1\<rparr>,
      items = [\<lparr>gputype = GPU_VEC4, offset = 0, item_size = 16\<rparr>],
      data = Some (replicate 16 0), id_lookup = Some [0],
      flag = GPU_UBO_FLAG_INITIALIZED\<rparr>"

definition ex_fresh :: GPUUniformBufferDynamic where
  "ex_fresh = ex_clean\<lparr>flag := GPU_UBO_FLAG_DIRTY\<rparr>"

text \<open>Two inputs that are no dynamic uniforms: a texture, and a uniform fed by a link.\<close>

definition ex_no_uniforms :: "GPUInput list" where
  "ex_no_uniforms =
     [\<lparr>self = 100, type = GPU_VEC4, source = GPU_SOURCE_TEX, link = None, dynamicvec = None\<rparr>,
      \<lparr>self = 200, type = GPU_VEC3, source = GPU_SOURCE_VEC_UNIFORM, link = Some 1,
        dynamicvec = None\<rparr>]"

text \<open>The list \<open>[vec4, vec3, float, vec2]\<close>, each live value as long as its type.\<close>

definition ex_paired :: "GPUInput list" where
  "ex_paired =
     [uniform_input 100 GPU_VEC4 [10, 11, 12, 13, 14, 15, 16, 17, 18, 19, 20, 21, 22, 23, 24, 25],
      uniform_input 200 GPU_VEC3 [30, 31, 32, 33, 34, 35, 36, 37, 38, 39, 40, 41],
      uniform_input 300 GPU_FLOAT [50, 51, 52, 53],
      uniform_input 400 GPU_VEC2 [70, 71, 72, 73, 74, 75, 76, 77]]"

definition ex_paired_ubo :: GPUUniformBufferDynamic where
  "ex_paired_ubo =
     \<lparr>buffer = \<lparr>ubo_size = 40, bindcode = 7, bindpoint = - 1\<rparr>,
      items = [\<lparr>gputype = GPU_VEC4, offset = 0, item_size = 16\<rparr>,
               \<lparr>gputype = GPU_VEC3, offset = 4, item_size = 12\<rparr>,
               \<lparr>gputype = GPU_FLOAT, offset = 7, item_size = 4\<rparr>,
               \<lparr>gputype = GPU_VEC2, offset = 8, item_size = 8\<rparr>],
      data = Some [10, 11, 12, 13, 14, 15, 16, 17, 18, 19, 20, 21, 22, 23, 24, 25,
                   30, 31, 32, 33, 34, 35, 36, 37, 38, 39, 40, 41,
                   50, 51, 52, 53, 70, 71, 72, 73, 74, 75, 76, 77],
      id_lookup = Some [0, 1, 2, 3],
      flag = GPU_UBO_FLAG_INITIALIZED\<rparr>"

definition ex_paired_result :: build_result where
  "ex_paired_result =
     \<lparr>ret = Some (Dynamic ex_paired_ubo),
      r_inputs_sorted = ex_paired,
      err_out = None,
      world_out = \<lparr>gl = [GlGenBuffers, GlBindBuffer 7,
                          GlBufferData 40 (data ex_paired_ubo), GlBindBuffer 0],
                    stderr = []\<rparr>\<rparr>"

text \<open>Two \<open>vec4\<close> inputs: a layout of 32 bytes.\<close>

definition ex_two_vec4 :: "GPUInput list" where
  "ex_two_vec4 =
     [uniform_input 100 GPU_VEC4 [10, 11, 12, 13, 14, 15, 16, 17, 18, 19, 20, 21, 22, 23, 24, 25],
      uniform_input 200 GPU_VEC4 [30, 31, 32, 33, 34, 35, 36, 37, 38, 39, 40, 41, 42, 43, 44, 45]]"

definition ex_two_vec4_ubo :: GPUUniformBufferDynamic where
  "ex_two_vec4_ubo =
     \<lparr>buffer = \<lparr>ubo_size = 32, bindcode = 7, bindpoint = - 1\<rparr>,
      items = [\<lparr>gputype = GPU_VEC4, offset = 0, item_size = 16\<rparr>,
               \<lparr>gputype = GPU_VEC4, offset = 4, item_size = 16\<rparr>],
      data = Some [10, 11, 12, 13, 14, 15, 16, 17, 18, 19, 20, 21, 22, 23, 24, 25,
                   30, 31, 32, 33, 34, 35, 36, 37, 38, 39, 40, 41, 42, 43, 44, 45],
      id_lookup = Some [0, 1],
      flag = GPU_UBO_FLAG_INITIALIZED\<rparr>"

text \<open>A \<open>vec3\<close> that ends up last in the sorted list.\<close>

definition ex_vec3_last :: "GPUInput list" where
  "ex_vec3_last =
     [uniform_input 100 GPU_VEC3 [30, 31, 32, 33, 34, 35, 36, 37, 38, 39, 40, 41],
      uniform_input 200 GPU_VEC4 [10, 11, 12, 13, 14, 15, 16, 17, 18, 19, 20, 21, 22, 23, 24, 25]]"

text \<open>
  The list \<open>[float, vec4, vec2]\<close>; every live value points into an array of four
  floats, so that a copy of up to 16 bytes stays inside the source object. The second
  list has the same structure and other values.
\<close>

definition ex_fvv :: "GPUInput list" where
  "ex_fvv =
     [uniform_input 100 GPU_FLOAT [10, 11, 12, 13, 14, 15, 16, 17, 18, 19, 20, 21, 22, 23, 24, 25],
      uniform_input 200 GPU_VEC4 [30, 31, 32, 33, 34, 35, 36, 37, 38, 39, 40, 41, 42, 43, 44, 45],
      uniform_input 300 GPU_VEC2 [50, 51, 52, 53, 54, 55, 56, 57, 58, 59, 60, 61, 62, 63, 64, 65]]"

definition ex_fvv_changed :: "GPUInput list" where
  "ex_fvv_changed =
     [uniform_input 100 GPU_FLOAT [110, 111, 112, 113, 114, 115, 116, 117, 118, 119, 120, 121,
                                   122, 123, 124, 125],
      uniform_input 200 GPU_VEC4 [130, 131, 132, 133, 134, 135, 136, 137, 138, 139, 140, 141,
                                  142, 143, 144, 145],
      uniform_input 300 GPU_VEC2 [150, 151, 152, 153, 154, 155, 156, 157, 158, 159, 160, 161,
                                  162, 163, 164, 165]]"

definition ex_fvv_ubo :: GPUUniformBufferDynamic where
  "ex_fvv_ubo =
     \<lparr>buffer = \<lparr>ubo_size = 28, bindcode = 7, bindpoint = - 1\<rparr>,
      items = [\<lparr>gputype = GPU_VEC4, offset = 0, item_size = 16\<rparr>,
               \<lparr>gputype = GPU_VEC2, offset = 4, item_size = 8\<rparr>,
               \<lparr>gputype = GPU_FLOAT, offset = 6, item_size = 4\<rparr>],
      data = Some [50, 51, 52, 53, 54, 55, 56, 57, 58, 59, 60, 61, 62, 63, 64, 65,
                   10, 11, 12, 13, 14, 15, 16, 17, 30, 31, 32, 33],
      id_lookup = Some [1, 2, 0],
      flag = GPU_UBO_FLAG_INITIALIZED\<rparr>"

section \<open>Flag arithmetic\<close>

lemma flag_clear_dirty: "(f AND NOT GPU_UBO_FLAG_DIRTY) AND GPU_UBO_FLAG_DIRTY = 0"
  by (simp add: word_bw_assocs)

lemma flag_init_nonzero: "GPU_UBO_FLAG_INITIALIZED \<noteq> 0"
  by (simp add: GPU_UBO_FLAG_INITIALIZED_def)

lemma flag_set_dirty: "(f OR GPU_UBO_FLAG_DIRTY) AND GPU_UBO_FLAG_DIRTY \<noteq> 0"
proof -
  have "(f OR GPU_UBO_FLAG_DIRTY) AND GPU_UBO_FLAG_DIRTY = GPU_UBO_FLAG_DIRTY"
    unfolding GPU_UBO_FLAG_DIRTY_def
    by (rule bit_word_eqI) (auto simp add: bit_simps)
  then show ?thesis by (simp add: GPU_UBO_FLAG_DIRTY_def)
qed

lemma flag_clear_keeps_init:
  "(f AND NOT GPU_UBO_FLAG_DIRTY) AND GPU_UBO_FLAG_INITIALIZED = f AND GPU_UBO_FLAG_INITIALIZED"
  unfolding GPU_UBO_FLAG_DIRTY_def GPU_UBO_FLAG_INITIALIZED_def
  by (rule bit_word_eqI) (auto simp add: bit_simps)

lemma flag_set_init:
  "(f OR GPU_UBO_FLAG_INITIALIZED) AND GPU_UBO_FLAG_INITIALIZED = GPU_UBO_FLAG_INITIALIZED"
  unfolding GPU_UBO_FLAG_DIRTY_def GPU_UBO_FLAG_INITIALIZED_def
  by (rule bit_word_eqI) (auto simp add: bit_simps)

lemma flag_dirty_keeps_init:
  "(f OR GPU_UBO_FLAG_DIRTY) AND GPU_UBO_FLAG_INITIALIZED = f AND GPU_UBO_FLAG_INITIALIZED"
  unfolding GPU_UBO_FLAG_DIRTY_def GPU_UBO_FLAG_INITIALIZED_def
  by (rule bit_word_eqI) (auto simp add: bit_simps)

lemmas flag_simps = flag_init_nonzero flag_set_dirty flag_clear_dirty flag_clear_keeps_init flag_set_init flag_dirty_keeps_init

section \<open>Counting GL calls\<close>

lemma uploads_gl_emit: "uploads (gl_emit cs w) = uploads w + length (filter is_upload cs)"
  by (simp add: uploads_def gl_emit_def)

lemma full_allocs_gl_emit:
  "full_allocs (gl_emit cs w) = full_allocs w + length (filter is_full_alloc cs)"
  by (simp add: full_allocs_def gl_emit_def)

lemma dynamic_update_Dynamic:
  "GPU_uniformbuffer_dynamic_update (Dynamic d) w =
     Inr (Dynamic (d\<lparr>flag := (if flag d AND GPU_UBO_FLAG_INITIALIZED \<noteq> 0 then flag d
                                 else flag d OR GPU_UBO_FLAG_INITIALIZED)
                                AND NOT GPU_UBO_FLAG_DIRTY\<rparr>),
          gl_emit [GlBindBuffer (bindcode (buffer d)),
                   (if flag d AND GPU_UBO_FLAG_INITIALIZED \<noteq> 0
                    then GlBufferSubData 0 (ubo_size (buffer d)) (data d)
                    else GlBufferData (ubo_size (buffer d)) (data d)),
                   GlBindBuffer 0] w)"
  by (simp add: GPU_uniformbuffer_dynamic_update_def gpu_uniformbuffer_update_def
      gpu_uniformbuffer_initialize_def)

lemma bind_Dynamic:
  "number < GPU_max_ubo_binds pf \<Longrightarrow>
   GPU_uniformbuffer_bind pf (Dynamic d) number w =
     (let d1 = (if flag d AND GPU_UBO_FLAG_DIRTY \<noteq> 0
                then d\<lparr>flag := (if flag d AND GPU_UBO_FLAG_INITIALIZED \<noteq> 0 then flag d
                                 else flag d OR GPU_UBO_FLAG_INITIALIZED)
                                AND NOT GPU_UBO_FLAG_DIRTY\<rparr>
                else d);
          w1 = (if flag d AND GPU_UBO_FLAG_DIRTY \<noteq> 0
                then gl_emit [GlBindBuffer (bindcode (buffer d)),
                   (if flag d AND GPU_UBO_FLAG_INITIALIZED \<noteq> 0
                    then GlBufferSubData 0 (ubo_size (buffer d)) (data d)
                    else GlBufferData (ubo_size (buffer d)) (data d)),
                   GlBindBuffer 0] w
                else w)
      in Inr (Dynamic (d1\<lparr>buffer := (buffer d1)\<lparr>bindpoint := number\<rparr>\<rparr>),
              if bindcode (buffer d) \<noteq> 0
              then gl_emit [GlBindBufferBase number (bindcode (buffer d))] w1 else w1))"
  by (simp add: GPU_uniformbuffer_bind_def dynamic_update_Dynamic Let_def)

lemma bind_exhausted:
  "number \<ge> GPU_max_ubo_binds pf \<Longrightarrow>
   GPU_uniformbuffer_bind pf u number w =
     Inr (u, w\<lparr>stderr := stderr w @ [''Not enough UBO slots.'' @ [CHR 0x0A]]\<rparr>)"
  by (simp add: GPU_uniformbuffer_bind_def)

lemma uploads_stderr [simp]: "uploads (w\<lparr>stderr := s\<rparr>) = uploads w"
  by (simp add: uploads_def)

lemma full_allocs_stderr [simp]: "full_allocs (w\<lparr>stderr := s\<rparr>) = full_allocs w"
  by (simp add: full_allocs_def)

text \<open>One bind of a dynamic buffer: at most one upload, none when clean; a bind that
  goes through leaves the buffer clean.\<close>

lemma bind_once:
  "\<exists>d1 w1. GPU_uniformbuffer_bind pf (Dynamic d) n w = Inr (Dynamic d1, w1)
      \<and> uploads w1 \<le> uploads w + 1
      \<and> (flag d AND GPU_UBO_FLAG_DIRTY = 0 \<longrightarrow>
            uploads w1 = uploads w \<and> flag d1 AND GPU_UBO_FLAG_DIRTY = 0)
      \<and> (uploads w1 = uploads w + 1 \<longrightarrow> flag d1 AND GPU_UBO_FLAG_DIRTY = 0)
      \<and> (n < GPU_max_ubo_binds pf \<longrightarrow> flag d1 AND GPU_UBO_FLAG_DIRTY = 0)"
proof (cases "n < GPU_max_ubo_binds pf")
  case True
  then show ?thesis
    by (simp add: bind_Dynamic Let_def uploads_gl_emit flag_simps)
next
  case False
  then show ?thesis
    by (simp add: bind_exhausted)
qed

section \<open>Frame of the sync step\<close>

lemma dynamic_eval_loop_frame:
  "dynamic_eval_loop ubo sid inputs = Inr ubo' \<Longrightarrow>
     flag ubo' = flag ubo \<and> items ubo' = items ubo \<and> buffer ubo' = buffer ubo
     \<and> id_lookup ubo' = id_lookup ubo"
proof (induction inputs arbitrary: ubo sid)
  case Nil
  then show ?case by simp
next
  case (Cons input rest)
  show ?case
  proof (cases "gpu_input_is_dynamic_uniform input")
    case False
    with Cons show ?thesis by simp
  next
    case True
    with Cons.prems obtain block sid' where
      "dynamic_eval_loop (ubo\<lparr>data := Some block\<rparr>) sid' rest = Inr ubo'"
      by (auto split: option.splits list.splits sum.splits)
    from Cons.IH [OF this] show ?thesis by simp
  qed
qed

lemma step_Dynamic:
  assumes "step pf op (Dynamic d, w) = Inr (u', w')"
  shows "\<exists>d'. u' = Dynamic d'
     \<and> (flag d AND GPU_UBO_FLAG_INITIALIZED \<noteq> 0 \<longrightarrow>
          flag d' AND GPU_UBO_FLAG_INITIALIZED \<noteq> 0 \<and> full_allocs w' = full_allocs w)
     \<and> (flag d AND GPU_UBO_FLAG_INITIALIZED = 0 \<longrightarrow>
          full_allocs w' = full_allocs w
            + (if flag d' AND GPU_UBO_FLAG_INITIALIZED \<noteq> 0 then 1 else 0))"
proof (cases op)
  case OpDynamicUpdate
  with assms have "u' = Dynamic (d\<lparr>flag := (if flag d AND GPU_UBO_FLAG_INITIALIZED \<noteq> 0
                                 then flag d else flag d OR GPU_UBO_FLAG_INITIALIZED)
                                AND NOT GPU_UBO_FLAG_DIRTY\<rparr>)"
    and "w' = gl_emit [GlBindBuffer (bindcode (buffer d)),
                   (if flag d AND GPU_UBO_FLAG_INITIALIZED \<noteq> 0
                    then GlBufferSubData 0 (ubo_size (buffer d)) (data d)
                    else GlBufferData (ubo_size (buffer d)) (data d)),
                   GlBindBuffer 0] w"
    by (simp_all add: dynamic_update_Dynamic)
  then show ?thesis
    by (simp add: full_allocs_gl_emit flag_simps)
next
  case (OpDynamicEval inputs)
  with assms obtain d' where "dynamic_eval_loop d (id_lookup d) inputs = Inr d'"
    "u' = Dynamic d'" "w' = w"
    by (auto simp: GPU_uniformbuffer_dynamic_eval_def split: sum.splits)
  with dynamic_eval_loop_frame [of d "id_lookup d" inputs d'] show ?thesis by simp
next
  case (OpBind n)
  show ?thesis
  proof (cases "n < GPU_max_ubo_binds pf")
    case True
    let ?d1 = "if flag d AND GPU_UBO_FLAG_DIRTY \<noteq> 0
                then d\<lparr>flag := (if flag d AND GPU_UBO_FLAG_INITIALIZED \<noteq> 0 then flag d
                                 else flag d OR GPU_UBO_FLAG_INITIALIZED)
                                AND NOT GPU_UBO_FLAG_DIRTY\<rparr>
                else d"
    let ?w1 = "if flag d AND GPU_UBO_FLAG_DIRTY \<noteq> 0
                then gl_emit [GlBindBuffer (bindcode (buffer d)),
                   (if flag d AND GPU_UBO_FLAG_INITIALIZED \<noteq> 0
                    then GlBufferSubData 0 (ubo_size (buffer d)) (data d)
                    else GlBufferData (ubo_size (buffer d)) (data d)),
                   GlBindBuffer 0] w
                else w"
    from True assms OpBind have "u' = Dynamic (?d1\<lparr>buffer := (buffer ?d1)\<lparr>bindpoint := n\<rparr>\<rparr>)"
      and "w' = (if bindcode (buffer d) \<noteq> 0
              then gl_emit [GlBindBufferBase n (bindcode (buffer d))] ?w1 else ?w1)"
      by (simp_all add: bind_Dynamic Let_def)
    then show ?thesis
      by (simp add: full_allocs_gl_emit flag_simps)
  next
    case False
    with assms OpBind have "u' = Dynamic d" and "full_allocs w' = full_allocs w"
      by (auto simp: bind_exhausted)
    then show ?thesis by simp
  qed
next
  case OpUnbind
  with assms have "u' = Dynamic (d\<lparr>buffer := (buffer d)\<lparr>bindpoint := - 1\<rparr>\<rparr>)" and "w' = w"
    by (auto simp: GPU_uniformbuffer_unbind_def)
  then show ?thesis by simp
next
  case OpTagDirty
  with assms have "u' = Dynamic (d\<lparr>flag := flag d OR GPU_UBO_FLAG_DIRTY\<rparr>)" and "w' = w"
    by (auto simp: GPU_uniformbuffer_tag_dirty_def)
  then show ?thesis by (simp add: flag_simps)
qed

lemma run_Dynamic:
  "run pf ops (Dynamic d, w) = Inr (u', w') \<Longrightarrow>
   \<exists>d'. u' = Dynamic d'
     \<and> (flag d AND GPU_UBO_FLAG_INITIALIZED \<noteq> 0 \<longrightarrow>
          flag d' AND GPU_UBO_FLAG_INITIALIZED \<noteq> 0 \<and> full_allocs w' = full_allocs w)
     \<and> (flag d AND GPU_UBO_FLAG_INITIALIZED = 0 \<longrightarrow>
          full_allocs w' = full_allocs w
            + (if flag d' AND GPU_UBO_FLAG_INITIALIZED \<noteq> 0 then 1 else 0))"
proof (induction ops arbitrary: d w)
  case Nil
  then have "u' = Dynamic d" and "w' = w" by simp_all
  then show ?case by simp
next
  case (Cons op ops)
  from Cons.prems obtain u1 w1 where s: "step pf op (Dynamic d, w) = Inr (u1, w1)"
    and r: "run pf ops (u1, w1) = Inr (u', w')"
    by (auto split: sum.splits)
  from step_Dynamic [OF s] obtain d1 where d1: "u1 = Dynamic d1"
    "flag d AND GPU_UBO_FLAG_INITIALIZED \<noteq> 0 \<longrightarrow>
          flag d1 AND GPU_UBO_FLAG_INITIALIZED \<noteq> 0 \<and> full_allocs w1 = full_allocs w"
    "flag d AND GPU_UBO_FLAG_INITIALIZED = 0 \<longrightarrow>
          full_allocs w1 = full_allocs w
            + (if flag d1 AND GPU_UBO_FLAG_INITIALIZED \<noteq> 0 then 1 else 0)"
    by blast
  from Cons.IH [of d1 w1] r d1(1) obtain d' where d': "u' = Dynamic d'"
    "flag d1 AND GPU_UBO_FLAG_INITIALIZED \<noteq> 0 \<longrightarrow>
          flag d' AND GPU_UBO_FLAG_INITIALIZED \<noteq> 0 \<and> full_allocs w' = full_allocs w1"
    "flag d1 AND GPU_UBO_FLAG_INITIALIZED = 0 \<longrightarrow>
          full_allocs w' = full_allocs w1
            + (if flag d' AND GPU_UBO_FLAG_INITIALIZED \<noteq> 0 then 1 else 0)"
    by blast
  show ?case
  proof (cases "flag d1 AND GPU_UBO_FLAG_INITIALIZED = 0")
    case True
    with d1 d' show ?thesis by auto
  next
    case False
    with d1 d' show ?thesis by auto
  qed
qed



section \<open>The sort pass and the padding rule\<close>

lemma inputs_cmp_pos: "inputs_cmp a b > 0 \<longleftrightarrow> type a < type b"
  by (simp add: inputs_cmp_def)

lemma set_sort_insert: "set (sort_insert cmp x ys) = insert x (set ys)"
  by (induction ys) auto

lemma sort_insert_descending:
  "sorted_wrt (\<lambda>a b. type a \<ge> type b) ys \<Longrightarrow>
   sorted_wrt (\<lambda>a b. type a \<ge> type b) (sort_insert inputs_cmp x ys)"
proof (induction ys)
  case Nil
  then show ?case by simp
next
  case (Cons y ys)
  show ?case
  proof (cases "type x < type y")
    case True
    with Cons show ?thesis
      by (auto simp: inputs_cmp_pos set_sort_insert)
  next
    case False
    with Cons.prems show ?thesis
      by (fastforce simp: inputs_cmp_pos)
  qed
qed

lemma sort_insert_class:
  "filter (\<lambda>i. type i = t) (sort_insert inputs_cmp x ys) = filter (\<lambda>i. type i = t) (x # ys)"
  by (induction ys) (auto simp: inputs_cmp_pos)

lemma padded_ge: "type lnk \<le> get_padded_gpu_type lnk link_next"
  by (cases link_next) (auto simp: get_padded_gpu_type_def)

lemma padded_other: "type lnk \<noteq> GPU_VEC3 \<Longrightarrow> get_padded_gpu_type lnk link_next = type lnk"
  by (cases link_next) (auto simp: get_padded_gpu_type_def)

section \<open>What the sorter keeps\<close>

text \<open>A property that holds of every node of the list handed to the sorter holds of
  every node of the list it returns.\<close>

lemma next_link_in_set: "next_link xs l = Some n \<Longrightarrow> n \<in> set xs"
proof -
  assume a: "next_link xs l = Some n"
  then obtain a rest where "dropWhile (\<lambda>x. x \<noteq> l) xs = a # n # rest"
    by (auto simp: next_link_def split: list.splits)
  then have "n \<in> set (dropWhile (\<lambda>x. x \<noteq> l) xs)" by simp
  then show ?thesis by (rule set_mp [OF set_dropWhileD [THEN subsetI], rotated]) 
qed

lemma set_insertlinkafter: "set (BLI_insertlinkafter xs p n) \<subseteq> insert n (set xs)"
  by (induction xs) auto

lemma set_remlink: "set (BLI_remlink xs l) \<subseteq> set xs"
  using set_remove1_subset [of l xs] by (simp add: BLI_remlink_def)

lemma vec3_pair_loop_all:
  assumes "vec3_pair_loop xs lnk0 f = Some ys"
  shows "list_all Q xs \<longrightarrow> (case f of None \<Rightarrow> True | Some x \<Rightarrow> Q x) \<longrightarrow> list_all Q ys"
proof (rule vec3_pair_loop.raw_induct
    [where P = "\<lambda>xs l f ys. list_all Q xs \<longrightarrow> (case f of None \<Rightarrow> True | Some x \<Rightarrow> Q x)
                  \<longrightarrow> list_all Q ys", OF _ assms])
  fix loop :: "LinkData list \<Rightarrow> LinkData option \<Rightarrow> LinkData option \<Rightarrow> LinkData list option"
  fix inputs lnk lookup_float ys'
  assume IH: "\<And>a b c y. loop a b c = Some y \<Longrightarrow>
      list_all Q a \<longrightarrow> (case c of None \<Rightarrow> True | Some x \<Rightarrow> Q x) \<longrightarrow> list_all Q y"
  assume body: "(case lnk of
        None \<Rightarrow> Some inputs
      | Some l \<Rightarrow>
         (if type l \<noteq> GPU_VEC3 then Some inputs
          else
            (case next_link inputs l of
               None \<Rightarrow> Some inputs
             | Some link_next \<Rightarrow>
                (if type link_next = GPU_FLOAT then Some inputs
                 else
                   (case lookup_float of
                      None \<Rightarrow> loop inputs (Some link_next) None
                    | Some float_input \<Rightarrow>
                        loop
                          (BLI_insertlinkafter (BLI_remlink inputs float_input) l float_input)
                          (Some link_next)
                          (next_link inputs float_input)))))) = Some ys'"
  show "list_all Q inputs \<longrightarrow> (case lookup_float of None \<Rightarrow> True | Some x \<Rightarrow> Q x)
          \<longrightarrow> list_all Q ys'"
  proof (intro impI)
    assume all: "list_all Q inputs" and fl: "case lookup_float of None \<Rightarrow> True | Some x \<Rightarrow> Q x"
    show "list_all Q ys'"
    proof (cases "ys' = inputs")
      case True
      with all show ?thesis by simp
    next
      case False
      with body obtain l link_next where
        rec: "(case lookup_float of
                     None \<Rightarrow> loop inputs (Some link_next) None
                   | Some float_input \<Rightarrow>
                       loop (BLI_insertlinkafter (BLI_remlink inputs float_input) l float_input)
                         (Some link_next) (next_link inputs float_input)) = Some ys'"
        by (auto split: option.splits if_splits)
      show ?thesis
      proof (cases lookup_float)
        case None
        with rec have "loop inputs (Some link_next) None = Some ys'" by simp
        from IH [OF this] all show ?thesis by simp
      next
        case (Some float_input)
        with rec have r: "loop (BLI_insertlinkafter (BLI_remlink inputs float_input) l float_input)
                         (Some link_next) (next_link inputs float_input) = Some ys'" by simp
        from Some fl have qf: "Q float_input" by simp
        have "set (BLI_insertlinkafter (BLI_remlink inputs float_input) l float_input)
                \<subseteq> insert float_input (set inputs)"
          using set_insertlinkafter [of "BLI_remlink inputs float_input" l float_input]
            set_remlink [of inputs float_input] by blast
        with all qf have a: "list_all Q (BLI_insertlinkafter (BLI_remlink inputs float_input) l float_input)"
          by (auto simp: list_all_iff)
        have b: "case next_link inputs float_input of None \<Rightarrow> True | Some x \<Rightarrow> Q x"
          using all by (auto simp: list_all_iff split: option.splits dest: next_link_in_set)
        from IH [OF r] a b show ?thesis by simp
      qed
    qed
  qed
qed

lemma inputs_lookup_loop_all:
  "inputs_lookup_loop xs tbl cur = Inr tbl' \<Longrightarrow> list_all Q xs \<Longrightarrow>
     (\<And>t x. tbl t = Some x \<Longrightarrow> Q x) \<Longrightarrow> tbl' t = Some x \<Longrightarrow> Q x"
proof (induction xs arbitrary: tbl cur)
  case Nil
  then show ?case by simp
next
  case (Cons lnk rest)
  from Cons.prems(2) have ql: "Q lnk" and qr: "list_all Q rest" by simp_all
  show ?case
  proof (cases "type lnk = cur")
    case True
    with Cons.prems(1) have "inputs_lookup_loop rest tbl cur = Inr tbl'" by simp
    from this qr Cons.prems(3) Cons.prems(4) show ?thesis by (rule Cons.IH)
  next
    case False
    with Cons.prems(1) have r: "inputs_lookup_loop rest (tbl(type lnk := Some lnk)) (type lnk) = Inr tbl'"
      by (simp split: if_splits)
    have "Q y" if "(tbl(type lnk := Some lnk)) s = Some y" for s y
      using that ql Cons.prems(3) [of s y] by (cases "s = type lnk") simp_all
    from r qr this Cons.prems(4) show ?thesis by (rule Cons.IH)
  qed
qed

lemma inputs_sort_all:
  assumes "gpu_uniformbuffer_inputs_sort xs = Some (Inr ys)" and "list_all Q xs"
  shows "list_all Q ys"
proof -
  let ?s = "BLI_listbase_sort inputs_cmp xs"
  have "set ?s = set xs"
    unfolding BLI_listbase_sort_def
    by (induction xs) (auto simp: set_sort_insert)
  with assms(2) have s: "list_all Q ?s" by (simp add: list_all_iff)
  show ?thesis
  proof (cases "inputs_lookup_loop ?s (\<lambda>_. None) (MAX_UBO_GPU_TYPE + 1)")
    case (Inl e)
    with assms(1) show ?thesis
      by (simp add: gpu_uniformbuffer_inputs_sort_def)
  next
    case (Inr tbl)
    have q: "Q x" if "tbl t = Some x" for t x
      by (rule inputs_lookup_loop_all [OF Inr s _ that]) simp
    show ?thesis
    proof (cases "tbl GPU_VEC3")
      case None
      with assms(1) Inr s show ?thesis
        by (simp add: gpu_uniformbuffer_inputs_sort_def)
    next
      case (Some l)
      with assms(1) Inr have "vec3_pair_loop ?s (Some l) (tbl GPU_FLOAT) = Some ys"
        by (auto simp: gpu_uniformbuffer_inputs_sort_def)
      from vec3_pair_loop_all [OF this, of Q] s q [of GPU_FLOAT] show ?thesis
        by (cases "tbl GPU_FLOAT") simp_all
    qed
  qed
qed

section \<open>The size limit in the static constructor\<close>

lemma create_rejects_oversize:
  assumes "glGenBuffers pf \<noteq> 0" and "sz > GPU_max_ubo_size pf"
  shows "GPU_uniformbuffer_create pf sz d err w =
           (None, write_err err ''GPUUniformBuffer: UBO too big'',
            gl_emit [GlGenBuffers, GlDeleteBuffers (glGenBuffers pf)] w)"
  using assms
  by (simp add: GPU_uniformbuffer_create_def GPU_uniformbuffer_free_def gl_emit_def)

section \<open>The sorter and the builder return\<close>

text \<open>
  The pairing loop is defined as a partial function. On a list in which no node occurs
  twice, as in any linked list, every round moves the cursor one node closer to the end,
  so the loop returns; with it the sorter and the builder return, whatever the platform
  and the inputs are, as long as the inputs are distinct structs.
\<close>

lemma insertlinkafter_split:
  "l \<notin> set p \<Longrightarrow> BLI_insertlinkafter (p @ l # s) l n = p @ l # n # s"
  by (induction p) auto

lemma insertlinkafter_absent: "l \<notin> set xs \<Longrightarrow> BLI_insertlinkafter xs l n = xs"
  by (induction xs) auto

lemma dropWhile_split: "l \<notin> set p \<Longrightarrow> dropWhile (\<lambda>x. x \<noteq> l) (p @ l # s) = l # s"
  by (induction p) auto

lemma next_link_split:
  assumes "next_link xs l = Some n"
  shows "\<exists>p rest. xs = p @ l # n # rest \<and> l \<notin> set p"
proof -
  from assms obtain a rest where d: "dropWhile (\<lambda>x. x \<noteq> l) xs = a # n # rest"
    by (auto simp: next_link_def split: list.splits)
  then have "\<not> (a \<noteq> l)"
    using hd_dropWhile [of "\<lambda>x. x \<noteq> l" xs] by force
  with d have "xs = takeWhile (\<lambda>x. x \<noteq> l) xs @ l # n # rest"
    using takeWhile_dropWhile_id [of "\<lambda>x. x \<noteq> l" xs] by simp
  moreover have "l \<notin> set (takeWhile (\<lambda>x. x \<noteq> l) xs)"
    by (auto dest: set_takeWhileD)
  ultimately show ?thesis by blast
qed

text \<open>One round of the pairing loop on a list without repeated nodes: the list stays
  without repeated nodes and fewer nodes are left behind the cursor.\<close>

lemma pair_step:
  assumes "distinct xs" and "next_link xs l = Some n"
  shows "distinct (BLI_insertlinkafter (BLI_remlink xs fl) l fl)
       \<and> length (dropWhile (\<lambda>x. x \<noteq> n) (BLI_insertlinkafter (BLI_remlink xs fl) l fl))
           < length (dropWhile (\<lambda>x. x \<noteq> l) xs)
       \<and> length (dropWhile (\<lambda>x. x \<noteq> n) xs) < length (dropWhile (\<lambda>x. x \<noteq> l) xs)"
proof -
  from next_link_split [OF assms(2)] obtain p rest where
    xs: "xs = p @ l # n # rest" and lp: "l \<notin> set p" by blast
  from assms(1) xs have dis: "distinct p" "distinct rest" "n \<notin> set p" "n \<noteq> l"
    "n \<notin> set rest" "l \<notin> set rest" "set p \<inter> set rest = {}"
    by auto
  have m: "dropWhile (\<lambda>x. x \<noteq> l) xs = l # n # rest"
    unfolding xs using lp by (rule dropWhile_split)
  have same: "dropWhile (\<lambda>x. x \<noteq> n) xs = n # rest"
    using dropWhile_split [of n "p @ [l]" rest] dis xs by simp
  consider (cursor) "fl = l" | (before) "fl \<in> set p" | (follower) "fl = n"
    | (behind) "fl \<in> set rest" | (absent) "fl \<notin> set xs"
    unfolding xs by auto
  then have "distinct (BLI_insertlinkafter (BLI_remlink xs fl) l fl)
       \<and> length (dropWhile (\<lambda>x. x \<noteq> n) (BLI_insertlinkafter (BLI_remlink xs fl) l fl))
           < length (l # n # rest)"
  proof cases
    case cursor
    with lp have r: "BLI_remlink xs fl = p @ n # rest"
      by (simp add: BLI_remlink_def xs remove1_append)
    with cursor lp dis have "BLI_insertlinkafter (BLI_remlink xs fl) l fl = p @ n # rest"
      by (simp add: insertlinkafter_absent)
    moreover have "dropWhile (\<lambda>x. x \<noteq> n) (p @ n # rest) = n # rest"
      using dis by (simp add: dropWhile_split)
    ultimately show ?thesis using dis by auto
  next
    case before
    then have r: "BLI_remlink xs fl = remove1 fl p @ l # n # rest"
      by (simp add: BLI_remlink_def xs remove1_append)
    from lp have "l \<notin> set (remove1 fl p)" by (auto dest: notin_set_remove1)
    with r have i: "BLI_insertlinkafter (BLI_remlink xs fl) l fl
        = remove1 fl p @ l # fl # n # rest"
      by (simp add: insertlinkafter_split)
    from before dis lp have fl: "fl \<noteq> l" "fl \<noteq> n" "fl \<notin> set rest" "fl \<notin> set (remove1 fl p)"
      by auto
    have "n \<notin> set (remove1 fl p @ [l, fl])"
      using dis fl by (auto dest: notin_set_remove1)
    then have "dropWhile (\<lambda>x. x \<noteq> n) ((remove1 fl p @ [l, fl]) @ n # rest) = n # rest"
      by (rule dropWhile_split)
    moreover have "distinct (remove1 fl p @ l # fl # n # rest)"
      using dis fl lp by (auto dest: notin_set_remove1)
    ultimately show ?thesis using i by simp
  next
    case follower
    with lp dis have r: "BLI_remlink xs fl = p @ l # rest"
      by (simp add: BLI_remlink_def xs remove1_append)
    with lp follower have i: "BLI_insertlinkafter (BLI_remlink xs fl) l fl = xs"
      by (simp add: insertlinkafter_split xs)
    with same assms(1) show ?thesis by simp
  next
    case behind
    with lp dis have fl: "fl \<notin> set p" "fl \<noteq> l" "fl \<noteq> n" by auto
    then have r: "BLI_remlink xs fl = p @ l # n # remove1 fl rest"
      by (simp add: BLI_remlink_def xs remove1_append)
    with lp have i: "BLI_insertlinkafter (BLI_remlink xs fl) l fl
        = p @ l # fl # n # remove1 fl rest"
      by (simp add: insertlinkafter_split)
    have "n \<notin> set (p @ [l, fl])" using dis fl by auto
    then have "dropWhile (\<lambda>x. x \<noteq> n) ((p @ [l, fl]) @ n # remove1 fl rest) = n # remove1 fl rest"
      by (rule dropWhile_split)
    moreover have "distinct (p @ l # fl # n # remove1 fl rest)"
      using dis fl lp behind by (auto dest: notin_set_remove1)
    moreover have "length (remove1 fl rest) \<le> length rest"
      by (simp add: length_remove1)
    ultimately show ?thesis using i by simp
  next
    case absent
    then have r: "BLI_remlink xs fl = xs"
      by (simp add: BLI_remlink_def remove1_idem)
    with lp have i: "BLI_insertlinkafter (BLI_remlink xs fl) l fl = p @ l # fl # n # rest"
      by (simp add: insertlinkafter_split xs)
    from absent have fl: "fl \<notin> set p" "fl \<noteq> l" "fl \<noteq> n" "fl \<notin> set rest"
      unfolding xs by auto
    have "n \<notin> set (p @ [l, fl])" using dis fl by auto
    then have "dropWhile (\<lambda>x. x \<noteq> n) ((p @ [l, fl]) @ n # rest) = n # rest"
      by (rule dropWhile_split)
    moreover have "distinct (p @ l # fl # n # rest)"
      using dis fl lp by auto
    ultimately show ?thesis using i by simp
  qed
  with m same show ?thesis by simp
qed

lemma vec3_pair_loop_returns_Some:
  "distinct xs \<Longrightarrow> \<exists>ys. vec3_pair_loop xs (Some l) f = Some ys"
proof (induction "length (dropWhile (\<lambda>x. x \<noteq> l) xs)" arbitrary: xs l f rule: less_induct)
  case less
  show ?case
  proof (cases "type l \<noteq> GPU_VEC3")
    case True
    then show ?thesis by (subst vec3_pair_loop.simps) simp
  next
    case vec3: False
    show ?thesis
    proof (cases "next_link xs l")
      case None
      with vec3 show ?thesis by (subst vec3_pair_loop.simps) simp
    next
      case (Some n)
      note step = pair_step [OF less.prems Some]
      show ?thesis
      proof (cases "type n = GPU_FLOAT")
        case True
        with vec3 Some show ?thesis by (subst vec3_pair_loop.simps) simp
      next
        case nf: False
        show ?thesis
        proof (cases f)
          case None
          from step have "length (dropWhile (\<lambda>x. x \<noteq> n) xs) < length (dropWhile (\<lambda>x. x \<noteq> l) xs)"
            by simp
          from less.hyps [OF this less.prems, of None]
          obtain ys where "vec3_pair_loop xs (Some n) None = Some ys" by blast
          with vec3 Some nf None show ?thesis
            by (subst vec3_pair_loop.simps) simp
        next
          case (Some fl)
          let ?xs' = "BLI_insertlinkafter (BLI_remlink xs fl) l fl"
          from step [of fl] have d: "distinct ?xs'"
            and m: "length (dropWhile (\<lambda>x. x \<noteq> n) ?xs') < length (dropWhile (\<lambda>x. x \<noteq> l) xs)"
            by simp_all
          from less.hyps [OF m d, of "next_link xs fl"]
          obtain ys where "vec3_pair_loop ?xs' (Some n) (next_link xs fl) = Some ys" by blast
          with vec3 \<open>next_link xs l = Some n\<close> nf Some show ?thesis
            by (subst vec3_pair_loop.simps) simp
        qed
      qed
    qed
  qed
qed

lemma distinct_sort_insert: "distinct (x # ys) \<Longrightarrow> distinct (sort_insert cmp x ys)"
  by (induction ys) (auto simp: set_sort_insert)

lemma distinct_listbase_sort: "distinct xs \<Longrightarrow> distinct (BLI_listbase_sort cmp xs)"
proof (induction xs)
  case Nil
  then show ?case by (simp add: BLI_listbase_sort_def)
next
  case (Cons x xs)
  have s: "set (BLI_listbase_sort cmp xs) = set xs"
    unfolding BLI_listbase_sort_def by (induction xs) (auto simp: set_sort_insert)
  have "BLI_listbase_sort cmp (x # xs) = sort_insert cmp x (BLI_listbase_sort cmp xs)"
    by (simp add: BLI_listbase_sort_def)
  with Cons s show ?case by (simp add: distinct_sort_insert)
qed

lemma inputs_sort_returns:
  assumes "distinct xs"
  shows "\<exists>res. gpu_uniformbuffer_inputs_sort xs = Some res"
proof -
  let ?s = "BLI_listbase_sort inputs_cmp xs"
  from assms have d: "distinct ?s" by (rule distinct_listbase_sort)
  show ?thesis
  proof (cases "inputs_lookup_loop ?s (\<lambda>_. None) (MAX_UBO_GPU_TYPE + 1)")
    case (Inl e)
    then show ?thesis by (simp add: gpu_uniformbuffer_inputs_sort_def)
  next
    case (Inr tbl)
    show ?thesis
    proof (cases "tbl GPU_VEC3")
      case None
      with Inr show ?thesis by (simp add: gpu_uniformbuffer_inputs_sort_def)
    next
      case (Some l)
      from vec3_pair_loop_returns_Some [OF d, of l "tbl GPU_FLOAT"]
      obtain ys where "vec3_pair_loop ?s (Some l) (tbl GPU_FLOAT) = Some ys" by blast
      with Inr Some show ?thesis by (simp add: gpu_uniformbuffer_inputs_sort_def)
    qed
  qed
qed

lemma build_returns:
  assumes "distinct (map self inputs)"
  shows "\<exists>res. GPU_uniformbuffer_dynamic_sort_and_create pf inputs r_sorted err w = Some res"
proof -
  from assms have "distinct inputs" by (simp add: distinct_map)
  then have "distinct (filter gpu_input_is_dynamic_uniform inputs)" by simp
  from inputs_sort_returns [OF this] obtain res where
    "gpu_uniformbuffer_inputs_sort (filter gpu_input_is_dynamic_uniform inputs) = Some res"
    by blast
  then show ?thesis
    unfolding GPU_uniformbuffer_dynamic_sort_and_create_def Let_def
    by (auto split: sum.splits prod.splits)
qed

section \<open>The layout loop\<close>

lemma packed_from_append:
  "packed_from s (xs @ ys) \<longleftrightarrow>
     packed_from s xs \<and> packed_from (s + sum_list (map item_size xs)) ys"
  by (induction xs arbitrary: s) (auto simp: add.assoc)

lemma packed_from_nth:
  "packed_from s xs \<Longrightarrow> k < length xs \<Longrightarrow>
     sizeof_float * offset (xs ! k) = s + sum_list (map item_size (take k xs))"
proof (induction xs arbitrary: s k)
  case Nil
  then show ?case by simp
next
  case (Cons x xs)
  then show ?case by (cases k) (auto simp: add.assoc)
qed

lemma sum_take_mono:
  assumes "list_all (\<lambda>it. 0 \<le> item_size it) xs" and "i \<le> j"
  shows "sum_list (map item_size (take i xs)) \<le> sum_list (map item_size (take j xs))"
proof -
  from \<open>i \<le> j\<close> have "take j xs = take i xs @ take (j - i) (drop i xs)"
    by (metis le_add_diff_inverse take_add)
  moreover have "0 \<le> sum_list (map item_size (take (j - i) (drop i xs)))"
  proof (rule sum_list_nonneg)
    fix x assume "x \<in> set (map item_size (take (j - i) (drop i xs)))"
    then obtain it where "it \<in> set xs" "x = item_size it"
      by (auto dest!: in_set_takeD in_set_dropD)
    with assms(1) show "0 \<le> x" by (simp add: list_all_iff)
  qed
  ultimately show ?thesis by simp
qed

lemma packed_disjoint:
  assumes "packed_from 0 xs" and "list_all (\<lambda>it. 0 \<le> item_size it) xs"
    and "i < j" and "j < length xs"
  shows "sizeof_float * offset (xs ! i) + item_size (xs ! i) \<le> sizeof_float * offset (xs ! j)"
proof -
  from assms have i: "sizeof_float * offset (xs ! i) = sum_list (map item_size (take i xs))"
    and j: "sizeof_float * offset (xs ! j) = sum_list (map item_size (take j xs))"
    using packed_from_nth [of 0 xs] by auto
  from assms have "take (Suc i) xs = take i xs @ [xs ! i]"
    by (simp add: take_Suc_conv_app_nth)
  then have "sum_list (map item_size (take (Suc i) xs))
      = sum_list (map item_size (take i xs)) + item_size (xs ! i)"
    by simp
  moreover from assms have "sum_list (map item_size (take (Suc i) xs))
      \<le> sum_list (map item_size (take j xs))"
    by (intro sum_take_mono) auto
  ultimately show ?thesis using i j by simp
qed

lemma packed_within:
  assumes "packed_from 0 xs" and "list_all (\<lambda>it. 0 \<le> item_size it) xs" and "k < length xs"
  shows "0 \<le> sizeof_float * offset (xs ! k)
       \<and> sizeof_float * offset (xs ! k) + item_size (xs ! k) \<le> sum_list (map item_size xs)"
proof -
  from assms have k: "sizeof_float * offset (xs ! k) = sum_list (map item_size (take k xs))"
    using packed_from_nth [of 0 xs k] by simp
  from assms have "take (Suc k) xs = take k xs @ [xs ! k]"
    by (simp add: take_Suc_conv_app_nth)
  then have s: "sum_list (map item_size (take (Suc k) xs))
      = sum_list (map item_size (take k xs)) + item_size (xs ! k)"
    by simp
  from assms have "sum_list (map item_size (take (Suc k) xs))
      \<le> sum_list (map item_size (take (length xs) xs))"
    by (intro sum_take_mono) auto
  moreover from assms have "sum_list (map item_size (take 0 xs))
      \<le> sum_list (map item_size (take k xs))"
    by (intro sum_take_mono) auto
  ultimately show ?thesis using k s by simp
qed

lemma populate_Inr:
  assumes "gpu_uniformbuffer_populate ubo gt ofs = Inr ubo'"
  shows "gt \<le> MAX_UBO_GPU_TYPE"
    and "items ubo' = items ubo @ [\<lparr>gputype = gt, offset = ofs, item_size = int gt * sizeof_float\<rparr>]"
    and "ubo_size (buffer ubo') = ubo_size (buffer ubo) + int gt * sizeof_float"
  using assms by (auto simp: gpu_uniformbuffer_populate_def Let_def split: if_splits)

lemma layout_loop_laid_out:
  assumes "layout_loop inputs ubo ids ofs links = Inr (ubo', ids')"
    and "laid_out ubo" and "ubo_size (buffer ubo) = sizeof_float * ofs"
  shows "laid_out ubo'"
  using assms
proof (induction links arbitrary: ubo ids ofs)
  case Nil
  then show ?case by simp
next
  case (Cons lnk rest)
  show ?case
  proof (cases "gpu_input_is_dynamic_uniform lnk")
    case False
    with Cons show ?thesis by simp
  next
    case True
    define gt where "gt = get_padded_gpu_type lnk (case rest of [] \<Rightarrow> None | n # _ \<Rightarrow> Some n)"
    from True Cons.prems(1) obtain ubo1 where
      p: "gpu_uniformbuffer_populate ubo gt ofs = Inr ubo1"
      and l: "layout_loop inputs ubo1 (ids @ [BLI_findindex inputs lnk]) (ofs + int gt) rest
               = Inr (ubo', ids')"
      by (auto simp: gt_def Let_def split: sum.splits if_splits)
    note q = populate_Inr [OF p]
    from q Cons.prems(2,3) have "laid_out ubo1"
      by (simp add: laid_out_def packed_from_append)
    moreover from q Cons.prems(3) have "ubo_size (buffer ubo1) = sizeof_float * (ofs + int gt)"
      by simp
    ultimately show ?thesis using Cons.IH [OF l] by simp
  qed
qed

lemma layout_loop_types:
  "layout_loop inputs ubo ids ofs links = Inr (ubo', ids') \<Longrightarrow>
     list_all (\<lambda>l. gpu_input_is_dynamic_uniform l \<longrightarrow> type l \<le> MAX_UBO_GPU_TYPE) links"
proof (induction links arbitrary: ubo ids ofs)
  case Nil
  then show ?case by simp
next
  case (Cons lnk rest)
  show ?case
  proof (cases "gpu_input_is_dynamic_uniform lnk")
    case False
    with Cons show ?thesis by simp
  next
    case True
    define gt where "gt = get_padded_gpu_type lnk (case rest of [] \<Rightarrow> None | n # _ \<Rightarrow> Some n)"
    from True Cons.prems(1) obtain ubo1 where
      p: "gpu_uniformbuffer_populate ubo gt ofs = Inr ubo1"
      and l: "layout_loop inputs ubo1 (ids @ [BLI_findindex inputs lnk]) (ofs + int gt) rest
               = Inr (ubo', ids')"
      by (auto simp: gt_def Let_def split: sum.splits if_splits)
    have "type lnk \<le> gt"
      unfolding gt_def get_padded_gpu_type_def by (auto split: option.splits)
    with populate_Inr(1) [OF p] have "type lnk \<le> MAX_UBO_GPU_TYPE" by simp
    with Cons.IH [OF l] show ?thesis by simp
  qed
qed


lemma layout_loop_positive:
  assumes "layout_loop inputs ubo ids ofs links = Inr (ubo', ids')"
    and "list_all (\<lambda>l. GPU_FLOAT \<le> type l) links"
    and "list_all (\<lambda>it. 0 < item_size it) (items ubo)"
  shows "list_all (\<lambda>it. 0 < item_size it) (items ubo')"
  using assms
proof (induction links arbitrary: ubo ids ofs)
  case Nil
  then show ?case by simp
next
  case (Cons lnk rest)
  show ?case
  proof (cases "gpu_input_is_dynamic_uniform lnk")
    case False
    with Cons show ?thesis by simp
  next
    case True
    define gt where "gt = get_padded_gpu_type lnk (case rest of [] \<Rightarrow> None | n # _ \<Rightarrow> Some n)"
    from True Cons.prems(1) obtain ubo1 where
      p: "gpu_uniformbuffer_populate ubo gt ofs = Inr ubo1"
      and l: "layout_loop inputs ubo1 (ids @ [BLI_findindex inputs lnk]) (ofs + int gt) rest
               = Inr (ubo', ids')"
      by (auto simp: gt_def Let_def split: sum.splits if_splits)
    from Cons.prems(2) have "GPU_FLOAT \<le> type lnk" by simp
    also have "type lnk \<le> gt" unfolding gt_def by (rule padded_ge)
    finally have "GPU_FLOAT \<le> gt" .
    with populate_Inr(2) [OF p] Cons.prems(3) have "list_all (\<lambda>it. 0 < item_size it) (items ubo1)"
      by simp
    with Cons.IH [OF l] Cons.prems(2) show ?thesis by simp
  qed
qed

lemma build_Some:
  assumes "GPU_uniformbuffer_dynamic_sort_and_create pf inputs r_sorted err w = Some (Inr r)"
    and "ret r = Some u"
  shows "\<exists>d ubo1 ids.
           u = Dynamic d \<and> items d = items ubo1 \<and> buffer d = buffer ubo1
         \<and> gpu_uniformbuffer_inputs_sort (filter gpu_input_is_dynamic_uniform inputs)
              = Some (Inr (r_inputs_sorted r))
         \<and> layout_loop inputs
              \<lparr>buffer = \<lparr>ubo_size = 0, bindcode = glGenBuffers pf, bindpoint = - 1\<rparr>,
               items = [], data = None, id_lookup = None, flag = GPU_UBO_FLAG_DIRTY\<rparr>
              [] 0 (r_inputs_sorted r) = Inr (ubo1, ids)"
proof -
  let ?ubo0 = "\<lparr>buffer = \<lparr>ubo_size = 0, bindcode = glGenBuffers pf, bindpoint = - 1\<rparr>,
               items = [], data = None, id_lookup = None, flag = GPU_UBO_FLAG_DIRTY\<rparr>"
  from assms obtain sorted1 ubo1 ids u3 w2 where
    l: "layout_loop inputs ?ubo0 [] 0 sorted1 = Inr (ubo1, ids)"
    and e: "GPU_uniformbuffer_dynamic_eval
              (Dynamic (ubo1\<lparr>id_lookup := Some ids,
                              data := Some (replicate (nat (ubo_size (buffer ubo1))) 0)\<rparr>)) inputs
            = Inr u3"
    and up: "GPU_uniformbuffer_dynamic_update u3 (gl_emit [GlGenBuffers] w) = Inr (u, w2)"
    and s: "r_inputs_sorted r = sorted1"
    and so: "gpu_uniformbuffer_inputs_sort (filter gpu_input_is_dynamic_uniform inputs)
              = Some (Inr sorted1)"
    unfolding GPU_uniformbuffer_dynamic_sort_and_create_def Let_def
    by (auto split: if_splits option.splits sum.splits prod.splits)
  from e obtain d3 where d3: "u3 = Dynamic d3"
    "dynamic_eval_loop (ubo1\<lparr>id_lookup := Some ids,
        data := Some (replicate (nat (ubo_size (buffer ubo1))) 0)\<rparr>) (Some ids) inputs = Inr d3"
    by (auto simp: GPU_uniformbuffer_dynamic_eval_def split: sum.splits)
  from dynamic_eval_loop_frame [OF d3(2)] have f: "items d3 = items ubo1" "buffer d3 = buffer ubo1"
    by simp_all
  from up d3(1) obtain d where "u = Dynamic d" "items d = items d3" "buffer d = buffer d3"
    by (auto simp: GPU_uniformbuffer_dynamic_update_def split: if_splits)
  with f l s so show ?thesis by auto
qed

lemma build_sorted_qualify:
  assumes "GPU_uniformbuffer_dynamic_sort_and_create pf inputs r_sorted err w = Some (Inr r)"
    and "ret r = Some u" and "list_all Q (filter gpu_input_is_dynamic_uniform inputs)"
  shows "list_all (\<lambda>l. gpu_input_is_dynamic_uniform l \<and> Q l) (r_inputs_sorted r)"
proof -
  from build_Some [OF assms(1,2)] have
    s: "gpu_uniformbuffer_inputs_sort (filter gpu_input_is_dynamic_uniform inputs)
              = Some (Inr (r_inputs_sorted r))"
    by blast
  from assms(3) have "list_all (\<lambda>l. gpu_input_is_dynamic_uniform l \<and> Q l)
      (filter gpu_input_is_dynamic_uniform inputs)"
    by (simp add: list_all_iff)
  with s show ?thesis by (rule inputs_sort_all)
qed


section \<open>Claims on the buffer core\<close>

text \<open>
  C6: binding a dynamic buffer whose dirty flag is clear performs no upload call, and
  two binds in succession perform at most one upload between them (none from a clean
  state): a bind that goes through leaves the dirty flag clear, so the second bind
  uploads nothing.
\<close>

theorem bind_twice_uploads_once:
  "\<exists>d1 w1 d2 w2.
      GPU_uniformbuffer_bind pf (Dynamic d) n w = Inr (Dynamic d1, w1)
    \<and> GPU_uniformbuffer_bind pf (Dynamic d1) m w1 = Inr (Dynamic d2, w2)
    \<and> uploads w2 \<le> uploads w + 1
    \<and> (flag d AND GPU_UBO_FLAG_DIRTY = 0 \<longrightarrow> uploads w1 = uploads w \<and> uploads w2 = uploads w)
    \<and> (n < GPU_max_ubo_binds pf \<longrightarrow>
          flag d1 AND GPU_UBO_FLAG_DIRTY = 0 \<and> uploads w2 = uploads w1)"
proof -
  obtain d1 w1 where 1: "GPU_uniformbuffer_bind pf (Dynamic d) n w = Inr (Dynamic d1, w1)"
      "uploads w1 \<le> uploads w + 1"
      "flag d AND GPU_UBO_FLAG_DIRTY = 0 \<longrightarrow>
            uploads w1 = uploads w \<and> flag d1 AND GPU_UBO_FLAG_DIRTY = 0"
      "uploads w1 = uploads w + 1 \<longrightarrow> flag d1 AND GPU_UBO_FLAG_DIRTY = 0"
      "n < GPU_max_ubo_binds pf \<longrightarrow> flag d1 AND GPU_UBO_FLAG_DIRTY = 0"
    using bind_once [of pf d n w] by blast
  obtain d2 w2 where 2: "GPU_uniformbuffer_bind pf (Dynamic d1) m w1 = Inr (Dynamic d2, w2)"
      "uploads w2 \<le> uploads w1 + 1"
      "flag d1 AND GPU_UBO_FLAG_DIRTY = 0 \<longrightarrow>
            uploads w2 = uploads w1 \<and> flag d2 AND GPU_UBO_FLAG_DIRTY = 0"
    using bind_once [of pf d1 m w1] by blast
  have "uploads w2 \<le> uploads w + 1"
  proof (cases "uploads w1 = uploads w + 1")
    case True
    with 1(4) 2(3) show ?thesis by simp
  next
    case False
    with 1(2) 2(2) show ?thesis by simp
  qed
  with 1 2 show ?thesis by auto
qed

theorem bind_twice_uploads_once_witness:
  "flag ex_clean AND GPU_UBO_FLAG_DIRTY = 0 \<and> 0 < GPU_max_ubo_binds ex_platform
   \<and> (\<exists>d1 w1 d2 w2.
        GPU_uniformbuffer_bind ex_platform (Dynamic ex_clean) 0 ex_world = Inr (Dynamic d1, w1)
      \<and> GPU_uniformbuffer_bind ex_platform (Dynamic d1) 1 w1 = Inr (Dynamic d2, w2)
      \<and> uploads w1 = uploads ex_world \<and> uploads w2 = uploads ex_world
      \<and> flag d1 AND GPU_UBO_FLAG_DIRTY = 0)"
proof -
  have h: "flag ex_clean AND GPU_UBO_FLAG_DIRTY = 0"
    by (simp add: ex_clean_def GPU_UBO_FLAG_DIRTY_def GPU_UBO_FLAG_INITIALIZED_def)
  have b: "0 < GPU_max_ubo_binds ex_platform"
    by (simp add: ex_platform_def)
  from h b bind_twice_uploads_once [of ex_platform ex_clean 0 ex_world 1]
  show ?thesis by auto
qed

text \<open>
  C7: a bind with a slot number at or above the platform's number of bind points only
  writes the diagnostic to stderr: no GL call is made and the buffer, its bind point
  included, is returned as it was.
\<close>

theorem bind_slot_exhausted_noop:
  assumes "number \<ge> GPU_max_ubo_binds pf"
  shows "GPU_uniformbuffer_bind pf u number w =
           Inr (u, w\<lparr>stderr := stderr w @ [''Not enough UBO slots.'' @ [CHR 0x0A]]\<rparr>)
         \<and> gl (w\<lparr>stderr := stderr w @ [''Not enough UBO slots.'' @ [CHR 0x0A]]\<rparr>) = gl w"
  using assms by (simp add: GPU_uniformbuffer_bind_def)

theorem bind_slot_exhausted_noop_witness:
  "8 \<ge> GPU_max_ubo_binds ex_platform
   \<and> GPU_uniformbuffer_bind ex_platform (Dynamic ex_fresh) 8 ex_world =
       Inr (Dynamic ex_fresh, \<lparr>gl = [], stderr = [''Not enough UBO slots.'' @ [CHR 0x0A]]\<rparr>)"
proof -
  have h: "8 \<ge> GPU_max_ubo_binds ex_platform"
    by (simp add: ex_platform_def)
  from bind_slot_exhausted_noop [OF h, of "Dynamic ex_fresh" ex_world] h
  show ?thesis by (simp add: ex_world_def)
qed

text \<open>
  C10: \<open>GPU_uniformbuffer_dynamic_update\<close> always returns with the INITIALIZED flag set
  and the dirty flag clear; it takes the full allocation (\<open>glBufferData\<close>) exactly
  when the flag was not set before, and the partial upload (\<open>glBufferSubData\<close>)
  otherwise. No sequence of update, eval, bind, unbind and tag-dirty calls clears the
  flag, and over any such sequence the number of full allocations grows by one if the
  buffer became initialised in it and by none otherwise.
\<close>

theorem full_allocation_exactly_once:
  "(\<exists>d1 w1. GPU_uniformbuffer_dynamic_update (Dynamic d) w = Inr (Dynamic d1, w1)
       \<and> flag d1 AND GPU_UBO_FLAG_INITIALIZED \<noteq> 0
       \<and> flag d1 AND GPU_UBO_FLAG_DIRTY = 0
       \<and> gl w1 = gl w @ [GlBindBuffer (bindcode (buffer d)),
                          (if flag d AND GPU_UBO_FLAG_INITIALIZED \<noteq> 0
                           then GlBufferSubData 0 (ubo_size (buffer d)) (data d)
                           else GlBufferData (ubo_size (buffer d)) (data d)),
                          GlBindBuffer 0])
   \<and> (\<forall>ops u' w'. run pf ops (Dynamic d, w) = Inr (u', w') \<longrightarrow>
         (\<exists>d'. u' = Dynamic d'
            \<and> (flag d AND GPU_UBO_FLAG_INITIALIZED \<noteq> 0 \<longrightarrow>
                 flag d' AND GPU_UBO_FLAG_INITIALIZED \<noteq> 0 \<and> full_allocs w' = full_allocs w)
            \<and> (flag d AND GPU_UBO_FLAG_INITIALIZED = 0 \<longrightarrow>
                 full_allocs w' = full_allocs w
                   + (if flag d' AND GPU_UBO_FLAG_INITIALIZED \<noteq> 0 then 1 else 0))))"
proof (intro conjI allI impI)
  show "\<exists>d1 w1. GPU_uniformbuffer_dynamic_update (Dynamic d) w = Inr (Dynamic d1, w1)
       \<and> flag d1 AND GPU_UBO_FLAG_INITIALIZED \<noteq> 0
       \<and> flag d1 AND GPU_UBO_FLAG_DIRTY = 0
       \<and> gl w1 = gl w @ [GlBindBuffer (bindcode (buffer d)),
                          (if flag d AND GPU_UBO_FLAG_INITIALIZED \<noteq> 0
                           then GlBufferSubData 0 (ubo_size (buffer d)) (data d)
                           else GlBufferData (ubo_size (buffer d)) (data d)),
                          GlBindBuffer 0]"
    by (simp add: dynamic_update_Dynamic flag_simps gl_emit_def)
next
  fix ops u' w'
  assume "run pf ops (Dynamic d, w) = Inr (u', w')"
  then show "\<exists>d'. u' = Dynamic d'
            \<and> (flag d AND GPU_UBO_FLAG_INITIALIZED \<noteq> 0 \<longrightarrow>
                 flag d' AND GPU_UBO_FLAG_INITIALIZED \<noteq> 0 \<and> full_allocs w' = full_allocs w)
            \<and> (flag d AND GPU_UBO_FLAG_INITIALIZED = 0 \<longrightarrow>
                 full_allocs w' = full_allocs w
                   + (if flag d' AND GPU_UBO_FLAG_INITIALIZED \<noteq> 0 then 1 else 0))"
    by (rule run_Dynamic)
qed

theorem full_allocation_exactly_once_witness:
  "flag ex_fresh AND GPU_UBO_FLAG_INITIALIZED = 0
   \<and> (\<exists>d' w'. run ex_platform [OpBind 0, OpTagDirty, OpDynamicUpdate, OpUnbind, OpBind 1]
                  (Dynamic ex_fresh, ex_world) = Inr (Dynamic d', w')
        \<and> flag d' AND GPU_UBO_FLAG_INITIALIZED \<noteq> 0
        \<and> full_allocs w' = full_allocs ex_world + 1)"
proof -
  have h: "flag ex_fresh AND GPU_UBO_FLAG_INITIALIZED = 0"
    by (simp add: ex_fresh_def GPU_UBO_FLAG_DIRTY_def GPU_UBO_FLAG_INITIALIZED_def)
  have r: "\<exists>d' w'. run ex_platform [OpBind 0, OpTagDirty, OpDynamicUpdate, OpUnbind, OpBind 1]
                  (Dynamic ex_fresh, ex_world) = Inr (Dynamic d', w')
        \<and> flag d' AND GPU_UBO_FLAG_INITIALIZED \<noteq> 0"
    by (simp add: ex_fresh_def ex_clean_def ex_platform_def ex_world_def
        GPU_uniformbuffer_bind_def GPU_uniformbuffer_dynamic_update_def
        GPU_uniformbuffer_tag_dirty_def GPU_uniformbuffer_unbind_def
        GPU_UBO_FLAG_DIRTY_def GPU_UBO_FLAG_INITIALIZED_def)
  then obtain d' w' where
    r': "run ex_platform [OpBind 0, OpTagDirty, OpDynamicUpdate, OpUnbind, OpBind 1]
           (Dynamic ex_fresh, ex_world) = Inr (Dynamic d', w')"
    and i: "flag d' AND GPU_UBO_FLAG_INITIALIZED \<noteq> 0"
    by blast
  from full_allocation_exactly_once [of ex_fresh ex_world ex_platform] r' h i
  have "full_allocs w' = full_allocs ex_world + 1"
    by fastforce
  with h r' i show ?thesis by blast
qed

section \<open>Claims on the builder\<close>

text \<open>
  C8: when no input is a dynamic uniform, the builder returns NULL, leaves the error
  buffer as it was and makes no GL call, so that no buffer name is generated.
\<close>

theorem build_nothing_to_build:
  assumes "list_all (\<lambda>i. \<not> gpu_input_is_dynamic_uniform i) inputs"
  shows "GPU_uniformbuffer_dynamic_sort_and_create pf inputs [] err w =
           Some (Inr \<lparr>ret = None, r_inputs_sorted = [], err_out = err, world_out = w\<rparr>)"
proof -
  from assms have "filter gpu_input_is_dynamic_uniform inputs = []"
    by (simp add: list_all_iff filter_empty_conv)
  then show ?thesis
    by (simp add: GPU_uniformbuffer_dynamic_sort_and_create_def)
qed

theorem build_nothing_to_build_witness:
  "list_all (\<lambda>i. \<not> gpu_input_is_dynamic_uniform i) ex_no_uniforms
   \<and> GPU_uniformbuffer_dynamic_sort_and_create ex_platform ex_no_uniforms [] (Some []) ex_world =
       Some (Inr \<lparr>ret = None, r_inputs_sorted = [], err_out = Some [], world_out = ex_world\<rparr>)"
proof -
  have h: "list_all (\<lambda>i. \<not> gpu_input_is_dynamic_uniform i) ex_no_uniforms"
    by (simp add: ex_no_uniforms_def gpu_input_is_dynamic_uniform_def)
  from build_nothing_to_build [OF h, of ex_platform "Some []" ex_world] h
  show ?thesis by simp
qed

section \<open>Claims on the sorter and the layout\<close>

text \<open>
  C5: the sort pass (\<open>BLI_listbase_sort\<close> with \<open>inputs_cmp\<close>) returns the entries
  in descending order of their component class, and the entries of any one class
  appear in it in the order they had before.
\<close>

theorem sort_pass_descending_stable:
  "sorted_wrt (\<lambda>a b. type a \<ge> type b) (BLI_listbase_sort inputs_cmp xs)
   \<and> (\<forall>t. filter (\<lambda>i. type i = t) (BLI_listbase_sort inputs_cmp xs)
           = filter (\<lambda>i. type i = t) xs)
   \<and> set (BLI_listbase_sort inputs_cmp xs) = set xs
   \<and> length (BLI_listbase_sort inputs_cmp xs) = length xs"
proof (induction xs)
  case Nil
  show ?case by (simp add: BLI_listbase_sort_def)
next
  case (Cons x xs)
  have unfold: "BLI_listbase_sort inputs_cmp (x # xs)
      = sort_insert inputs_cmp x (BLI_listbase_sort inputs_cmp xs)"
    by (simp add: BLI_listbase_sort_def)
  have len: "length (sort_insert inputs_cmp x ys) = Suc (length ys)" for ys
    by (induction ys) auto
  from Cons show ?case
    unfolding unfold
    by (simp add: sort_insert_descending sort_insert_class set_sort_insert len)
qed

text \<open>
  C4, as the code has it: a 3-component entry is given the padded type \<open>vec4\<close> exactly
  when an entry follows it and that entry is not a 1-component one. A 3-component entry
  followed by a \<open>float\<close>, and a 3-component entry at the end of the list, keep three
  components.
\<close>

theorem padded_type_of_vec3:
  assumes "type lnk = GPU_VEC3"
  shows "(get_padded_gpu_type lnk link_next = GPU_VEC4
            \<longleftrightarrow> (\<exists>n. link_next = Some n \<and> type n \<noteq> GPU_FLOAT))
       \<and> (get_padded_gpu_type lnk link_next = GPU_VEC3
            \<longleftrightarrow> link_next = None \<or> (\<exists>n. link_next = Some n \<and> type n = GPU_FLOAT))
       \<and> get_padded_gpu_type lnk None = GPU_VEC3"
  using assms by (cases link_next) (auto simp: get_padded_gpu_type_def)

theorem padded_type_of_vec3_witness:
  "type (ex_paired ! 1) = GPU_VEC3
   \<and> get_padded_gpu_type (ex_paired ! 1) (Some (ex_paired ! 3)) = GPU_VEC4
   \<and> get_padded_gpu_type (ex_paired ! 1) (Some (ex_paired ! 2)) = GPU_VEC3
   \<and> get_padded_gpu_type (ex_paired ! 1) None = GPU_VEC3"
proof -
  have h: "type (ex_paired ! 1) = GPU_VEC3"
    by (simp add: ex_paired_def uniform_input_def)
  have t2: "type (ex_paired ! 2) = GPU_FLOAT" and t3: "type (ex_paired ! 3) = GPU_VEC2"
    by (simp_all add: ex_paired_def uniform_input_def)
  from padded_type_of_vec3 [OF h, of "Some (ex_paired ! 3)"]
    padded_type_of_vec3 [OF h, of "Some (ex_paired ! 2)"] h t2 t3
  show ?thesis by simp
qed

text \<open>
  The claim as the specification words it fails for a 3-component entry at the end of
  the list: it has no 1-component follower, and its padded type stays \<open>vec3\<close>; the
  builder gives it an item of 12 bytes.
\<close>

theorem last_vec3_not_padded:
  "type (ex_vec3_last ! 0) = GPU_VEC3
   \<and> get_padded_gpu_type (ex_vec3_last ! 0) None \<noteq> GPU_VEC4
   \<and> map_option r_inputs_sorted
        (returned (GPU_uniformbuffer_dynamic_sort_and_create ex_platform ex_vec3_last [] None
                     ex_world))
       = Some [ex_vec3_last ! 1, ex_vec3_last ! 0]
   \<and> map_option items
        (built (GPU_uniformbuffer_dynamic_sort_and_create ex_platform ex_vec3_last [] None ex_world))
       = Some [\<lparr>gputype = GPU_VEC4, offset = 0, item_size = 16\<rparr>,
               \<lparr>gputype = GPU_VEC3, offset = 4, item_size = 12\<rparr>]"
  by code_simp

text \<open>
  C9: \<open>gpu_uniformbuffer_populate\<close> stops at its assertion for a type above
  \<open>MAX_UBO_GPU_TYPE\<close> and adds no item; an item it adds has a type of at most four
  components. The layout loop returns only if every dynamic uniform of the sorted
  list has at most four components, and every item of a buffer the builder returns
  has at most four components.
\<close>

theorem populate_asserts_max_type:
  "(MAX_UBO_GPU_TYPE < gt \<longrightarrow> gpu_uniformbuffer_populate ubo gt ofs = Inl AssertFailed)
   \<and> (\<forall>ubo'. gpu_uniformbuffer_populate ubo gt ofs = Inr ubo' \<longrightarrow>
          gt \<le> MAX_UBO_GPU_TYPE
          \<and> items ubo' = items ubo
               @ [\<lparr>gputype = gt, offset = ofs, item_size = int gt * sizeof_float\<rparr>])
   \<and> (\<forall>ubo' ids'. layout_loop inputs ubo ids ofs links = Inr (ubo', ids') \<longrightarrow>
          list_all (\<lambda>l. type l \<le> MAX_UBO_GPU_TYPE) (filter gpu_input_is_dynamic_uniform links))
   \<and> (\<forall>r u. GPU_uniformbuffer_dynamic_sort_and_create pf inputs r_sorted err w = Some (Inr r)
              \<and> ret r = Some u \<longrightarrow>
          (\<exists>d. u = Dynamic d
              \<and> list_all (\<lambda>it. gputype it \<le> MAX_UBO_GPU_TYPE) (items d)
              \<and> list_all (\<lambda>l. type l \<le> MAX_UBO_GPU_TYPE) (r_inputs_sorted r)))"
proof (intro conjI allI impI)
  assume "MAX_UBO_GPU_TYPE < gt"
  then show "gpu_uniformbuffer_populate ubo gt ofs = Inl AssertFailed"
    by (simp add: gpu_uniformbuffer_populate_def)
next
  fix ubo'
  assume "gpu_uniformbuffer_populate ubo gt ofs = Inr ubo'"
  from populate_Inr(1) [OF this] show "gt \<le> MAX_UBO_GPU_TYPE" .
next
  fix ubo'
  assume "gpu_uniformbuffer_populate ubo gt ofs = Inr ubo'"
  from populate_Inr(2) [OF this]
  show "items ubo' = items ubo
          @ [\<lparr>gputype = gt, offset = ofs, item_size = int gt * sizeof_float\<rparr>]" .
next
  fix ubo' ids'
  assume "layout_loop inputs ubo ids ofs links = Inr (ubo', ids')"
  from layout_loop_types [OF this]
  show "list_all (\<lambda>l. type l \<le> MAX_UBO_GPU_TYPE) (filter gpu_input_is_dynamic_uniform links)"
    by (simp add: list_all_iff)
next
  fix r u
  assume a: "GPU_uniformbuffer_dynamic_sort_and_create pf inputs r_sorted err w = Some (Inr r)
              \<and> ret r = Some u"
  then have b: "GPU_uniformbuffer_dynamic_sort_and_create pf inputs r_sorted err w = Some (Inr r)"
    and c: "ret r = Some u" by simp_all
  from build_Some [OF b c] obtain d ubo1 ids where
    d: "u = Dynamic d" "items d = items ubo1"
    and l: "layout_loop inputs
              \<lparr>buffer = \<lparr>ubo_size = 0, bindcode = glGenBuffers pf, bindpoint = - 1\<rparr>,
               items = [], data = None, id_lookup = None, flag = GPU_UBO_FLAG_DIRTY\<rparr>
              [] 0 (r_inputs_sorted r) = Inr (ubo1, ids)"
    by blast
  have "laid_out ubo1"
    by (rule layout_loop_laid_out [OF l]) (simp_all add: laid_out_def)
  with d(2) have i: "list_all (\<lambda>it. gputype it \<le> MAX_UBO_GPU_TYPE) (items d)"
    by (simp add: laid_out_def list_all_iff)
  have "list_all (\<lambda>l. gpu_input_is_dynamic_uniform l \<and> True) (r_inputs_sorted r)"
    by (rule build_sorted_qualify [OF b c]) (simp add: list_all_iff)
  with layout_loop_types [OF l]
  have "list_all (\<lambda>l. type l \<le> MAX_UBO_GPU_TYPE) (r_inputs_sorted r)"
    by (simp add: list_all_iff)
  with d(1) i
  show "\<exists>d. u = Dynamic d
              \<and> list_all (\<lambda>it. gputype it \<le> MAX_UBO_GPU_TYPE) (items d)
              \<and> list_all (\<lambda>l. type l \<le> MAX_UBO_GPU_TYPE) (r_inputs_sorted r)"
    by simp
qed

theorem populate_asserts_max_type_witness:
  "MAX_UBO_GPU_TYPE < (9::nat)
   \<and> gpu_uniformbuffer_populate ex_fresh 9 4 = Inl AssertFailed
   \<and> gpu_uniformbuffer_populate ex_fresh GPU_VEC2 4
       = Inr (ex_fresh\<lparr>buffer := (buffer ex_fresh)\<lparr>ubo_size := 24\<rparr>,
                       items := items ex_fresh
                         @ [\<lparr>gputype = GPU_VEC2, offset = 4, item_size = 8\<rparr>]\<rparr>)
   \<and> GPU_uniformbuffer_dynamic_sort_and_create ex_platform ex_paired [] None ex_world
       = Some (Inr ex_paired_result)
   \<and> ret ex_paired_result = Some (Dynamic ex_paired_ubo)
   \<and> list_all (\<lambda>it. gputype it \<le> MAX_UBO_GPU_TYPE) (items ex_paired_ubo)
   \<and> GPU_uniformbuffer_dynamic_sort_and_create ex_platform [uniform_input 100 5 []] [] None ex_world
       = Some (Inl AssertFailed)"
proof -
  have h: "MAX_UBO_GPU_TYPE < (9::nat)" by simp
  have p: "gpu_uniformbuffer_populate ex_fresh GPU_VEC2 4
       = Inr (ex_fresh\<lparr>buffer := (buffer ex_fresh)\<lparr>ubo_size := 24\<rparr>,
                       items := items ex_fresh
                         @ [\<lparr>gputype = GPU_VEC2, offset = 4, item_size = 8\<rparr>]\<rparr>)"
    by code_simp
  have b: "GPU_uniformbuffer_dynamic_sort_and_create ex_platform ex_paired [] None ex_world
       = Some (Inr ex_paired_result)"
    by code_simp
  have r: "ret ex_paired_result = Some (Dynamic ex_paired_ubo)"
    by (simp add: ex_paired_result_def)
  have w: "GPU_uniformbuffer_dynamic_sort_and_create ex_platform [uniform_input 100 5 []] [] None
       ex_world = Some (Inl AssertFailed)"
    by code_simp
  note t = populate_asserts_max_type
    [where gt = 9 and ubo = ex_fresh and ofs = 4 and pf = ex_platform and inputs = ex_paired
       and r_sorted = "[]" and err = None and w = ex_world]
  from t h have 1: "gpu_uniformbuffer_populate ex_fresh 9 4 = Inl AssertFailed" by blast
  from t b r have 2: "list_all (\<lambda>it. gputype it \<le> MAX_UBO_GPU_TYPE) (items ex_paired_ubo)"
    by blast
  from h 1 p b r 2 w show ?thesis by blast
qed

text \<open>
  C3, as the code has it: \<open>item.offset\<close> counts floats, not bytes (the builder
  advances it by the number of components and the sync step adds it to a
  \<open>float *\<close>), so the bytes of an item are
  \<open>[4 * item.offset, 4 * item.offset + item.size)\<close>. After a successful build the
  item sizes add up to \<open>buffer.size\<close>, the first item begins at byte 0 and every
  further item where its predecessor ends, so that these ranges are pairwise disjoint,
  lie inside the block and cover it. When all inputs have one to four components, no
  range is empty.
\<close>

theorem build_layout_contiguous:
  assumes "GPU_uniformbuffer_dynamic_sort_and_create pf inputs r_sorted err w = Some (Inr r)"
    and "ret r = Some u"
  shows "\<exists>d. u = Dynamic d
     \<and> sum_list (map item_size (items d)) = ubo_size (buffer d)
     \<and> packed_from 0 (items d)
     \<and> (\<forall>i j. i < j \<and> j < length (items d) \<longrightarrow>
           sizeof_float * offset (items d ! i) + item_size (items d ! i)
             \<le> sizeof_float * offset (items d ! j))
     \<and> (\<forall>k. k < length (items d) \<longrightarrow>
           0 \<le> sizeof_float * offset (items d ! k)
           \<and> sizeof_float * offset (items d ! k) + item_size (items d ! k) \<le> ubo_size (buffer d))
     \<and> (list_all (\<lambda>i. GPU_FLOAT \<le> type i \<and> type i \<le> GPU_VEC4) inputs \<longrightarrow>
           list_all (\<lambda>it. 0 < item_size it) (items d))"
proof -
  from build_Some [OF assms] obtain d ubo1 ids where
    d: "u = Dynamic d" "items d = items ubo1" "buffer d = buffer ubo1"
    and l: "layout_loop inputs
              \<lparr>buffer = \<lparr>ubo_size = 0, bindcode = glGenBuffers pf, bindpoint = - 1\<rparr>,
               items = [], data = None, id_lookup = None, flag = GPU_UBO_FLAG_DIRTY\<rparr>
              [] 0 (r_inputs_sorted r) = Inr (ubo1, ids)"
    by blast
  have "laid_out ubo1"
    by (rule layout_loop_laid_out [OF l]) (simp_all add: laid_out_def)
  with d have s: "sum_list (map item_size (items d)) = ubo_size (buffer d)"
    and p: "packed_from 0 (items d)"
    and n: "list_all (\<lambda>it. 0 \<le> item_size it) (items d)"
    by (auto simp: laid_out_def list_all_iff)
  have pos: "list_all (\<lambda>it. 0 < item_size it) (items d)"
    if c: "list_all (\<lambda>i. GPU_FLOAT \<le> type i \<and> type i \<le> GPU_VEC4) inputs"
  proof -
    from c have "list_all (\<lambda>i. GPU_FLOAT \<le> type i)
        (filter gpu_input_is_dynamic_uniform inputs)"
      by (simp add: list_all_iff)
    from build_sorted_qualify [OF assms this]
    have "list_all (\<lambda>l. GPU_FLOAT \<le> type l) (r_inputs_sorted r)"
      by (simp add: list_all_iff)
    from layout_loop_positive [OF l this] d(2) show ?thesis by simp
  qed
  from p n s d(1) pos show ?thesis
    using packed_disjoint [OF p n] packed_within [OF p n] by auto
qed

theorem build_layout_contiguous_witness:
  "GPU_uniformbuffer_dynamic_sort_and_create ex_platform ex_paired [] None ex_world
     = Some (Inr ex_paired_result)
   \<and> ret ex_paired_result = Some (Dynamic ex_paired_ubo)
   \<and> list_all (\<lambda>i. GPU_FLOAT \<le> type i \<and> type i \<le> GPU_VEC4) ex_paired
   \<and> sum_list (map item_size (items ex_paired_ubo)) = ubo_size (buffer ex_paired_ubo)
   \<and> packed_from 0 (items ex_paired_ubo)
   \<and> list_all (\<lambda>it. 0 < item_size it) (items ex_paired_ubo)
   \<and> sizeof_float * offset (items ex_paired_ubo ! 1) + item_size (items ex_paired_ubo ! 1)
       \<le> sizeof_float * offset (items ex_paired_ubo ! 2)"
proof -
  have b: "GPU_uniformbuffer_dynamic_sort_and_create ex_platform ex_paired [] None ex_world
       = Some (Inr ex_paired_result)"
    by code_simp
  have r: "ret ex_paired_result = Some (Dynamic ex_paired_ubo)"
    by (simp add: ex_paired_result_def)
  have c: "list_all (\<lambda>i. GPU_FLOAT \<le> type i \<and> type i \<le> GPU_VEC4) ex_paired"
    by (simp add: ex_paired_def uniform_input_def)
  have n: "(1::nat) < 2 \<and> 2 < length (items ex_paired_ubo)"
    by (simp add: ex_paired_ubo_def)
  from build_layout_contiguous [OF b r] c n b r show ?thesis by blast
qed

text \<open>
  The claim as the specification words it, with \<open>[item.offset, item.offset + item.size)\<close>
  read as a range of bytes, fails for two \<open>vec4\<close> inputs: the items come out as
  offset 0, size 16 and offset 4, size 16, and 4 lies inside \<open>[0, 16)\<close>.
\<close>

theorem offsets_are_not_byte_positions:
  "map_option items
     (built (GPU_uniformbuffer_dynamic_sort_and_create ex_platform ex_two_vec4 [] None ex_world))
     = Some [\<lparr>gputype = GPU_VEC4, offset = 0, item_size = 16\<rparr>,
             \<lparr>gputype = GPU_VEC4, offset = 4, item_size = 16\<rparr>]
   \<and> offset \<lparr>gputype = GPU_VEC4, offset = 0, item_size = 16\<rparr>
       \<le> offset \<lparr>gputype = GPU_VEC4, offset = 4, item_size = 16\<rparr>
   \<and> offset \<lparr>gputype = GPU_VEC4, offset = 4, item_size = 16\<rparr>
       < offset \<lparr>gputype = GPU_VEC4, offset = 0, item_size = 16\<rparr>
         + item_size \<lparr>gputype = GPU_VEC4, offset = 0, item_size = 16\<rparr>"
  by code_simp

section \<open>Where the code departs from its description\<close>

text \<open>
  C1: the builder stores in \<open>id_lookup[k]\<close> the position in the original list of the
  input behind the \<open>k\<close>-th item; the sync step reads \<open>id_lookup[k]\<close> for the
  \<open>k\<close>-th qualifying input of the original list and takes it as the position of an
  item. For \<open>[float, vec4, vec2]\<close> the sorted list is \<open>[vec4, vec2, float]\<close> and the
  table is \<open>[1, 2, 0]\<close>. The builder's own sync and a later one with other values
  both return, and both leave at item 0, which was built from the \<open>vec4\<close> input, the
  bytes of the \<open>vec2\<close> input.
\<close>

theorem eval_copies_to_wrong_items:
  "GPU_uniformbuffer_dynamic_sort_and_create ex_platform ex_fvv [] None ex_world
     = Some (Inr \<lparr>ret = Some (Dynamic ex_fvv_ubo),
                  r_inputs_sorted = [ex_fvv ! 1, ex_fvv ! 2, ex_fvv ! 0],
                  err_out = None,
                  world_out = \<lparr>gl = [GlGenBuffers, GlBindBuffer 7,
                                      GlBufferData 28 (data ex_fvv_ubo), GlBindBuffer 0],
                                stderr = []\<rparr>\<rparr>)
   \<and> staged_bytes ex_fvv_ubo (items ex_fvv_ubo ! 0)
       = [50, 51, 52, 53, 54, 55, 56, 57, 58, 59, 60, 61, 62, 63, 64, 65]
   \<and> live_bytes (ex_fvv ! 1) (item_size (items ex_fvv_ubo ! 0))
       = [30, 31, 32, 33, 34, 35, 36, 37, 38, 39, 40, 41, 42, 43, 44, 45]
   \<and> live_bytes (ex_fvv ! 2) 16
       = [50, 51, 52, 53, 54, 55, 56, 57, 58, 59, 60, 61, 62, 63, 64, 65]
   \<and> GPU_uniformbuffer_dynamic_eval (Dynamic ex_fvv_ubo) ex_fvv_changed
       = Inr (Dynamic (ex_fvv_ubo\<lparr>data :=
            Some [150, 151, 152, 153, 154, 155, 156, 157, 158, 159, 160, 161, 162, 163, 164, 165,
                  110, 111, 112, 113, 114, 115, 116, 117, 130, 131, 132, 133]\<rparr>))
   \<and> live_bytes (ex_fvv_changed ! 1) (item_size (items ex_fvv_ubo ! 0))
       = [130, 131, 132, 133, 134, 135, 136, 137, 138, 139, 140, 141, 142, 143, 144, 145]"
  by code_simp

text \<open>
  C2: the builder compares \<open>ubo->buffer.size\<close> with \<open>GPU_max_ubo_size()\<close> before the
  layout loop has added any item, when the size is still 0. On a platform whose limit
  is 16 bytes two \<open>vec4\<close> inputs give a layout of 32 bytes, and the builder returns
  the buffer: nothing is written to the error buffer and the GL name is not deleted.
\<close>

theorem oversized_layout_is_built:
  "GPU_max_ubo_size ex_small_platform = 16
   \<and> GPU_uniformbuffer_dynamic_sort_and_create ex_small_platform ex_two_vec4 [] (Some []) ex_world
     = Some (Inr \<lparr>ret = Some (Dynamic ex_two_vec4_ubo),
                  r_inputs_sorted = ex_two_vec4,
                  err_out = Some [],
                  world_out = \<lparr>gl = [GlGenBuffers, GlBindBuffer 7,
                                      GlBufferData 32 (data ex_two_vec4_ubo), GlBindBuffer 0],
                                stderr = []\<rparr>\<rparr>)
   \<and> ubo_size (buffer ex_two_vec4_ubo) = 32"
  by code_simp

end
